theory Spec2Isabelle
  imports Main "HOL-Library.Sublist"
begin

section \<open>Python values used by \<^verbatim>\<open>main.py\<close>\<close>

text \<open>
  A Python \<^verbatim>\<open>str\<close> is a sequence of Unicode code points: \<^verbatim>\<open>len\<close> counts code points and
  a slice cuts between them. The source has literals outside Latin-1 (the bullet U+2022 and
  four clock faces U+1F550, U+1F555, U+1F558, U+1F55B in the style table), so a string is
  modelled as the list of its code points, each a natural number. \<open>lit\<close> embeds an
  Isabelle string literal (code points below 256).
\<close>

type_synonym str = "nat list"

definition lit :: "string \<Rightarrow> str" where
  "lit s = map of_char s"

text \<open>The exceptions that the modelled code can raise; \<open>Exception\<close> carries \<^verbatim>\<open>str(e)\<close>.\<close>

datatype exn = IndexError | Exception str

text \<open>
  \<^verbatim>\<open>xs[i]\<close>: a negative index counts from the end, an index outside the list raises
  \<^verbatim>\<open>IndexError\<close>.
\<close>

definition getitem :: "'a list \<Rightarrow> int \<Rightarrow> exn + 'a" where
  "getitem xs i =
     (if 0 \<le> i \<and> i < int (length xs) then Inr (xs ! nat i)
      else if i < 0 \<and> - int (length xs) \<le> i then Inr (xs ! nat (int (length xs) + i))
      else Inl IndexError)"

text \<open>
  Python truthiness of a value that is \<^verbatim>\<open>None\<close> or a string, as tested by
  \<^verbatim>\<open>if language_code\<close>, \<^verbatim>\<open>if google_api_key\<close>, \<^verbatim>\<open>if not api_key\<close>,
  \<^verbatim>\<open>response.text\<close> and \<^verbatim>\<open>if not transcript\<close>: \<^verbatim>\<open>None\<close> and the empty string are false.
\<close>

definition truthy :: "str option \<Rightarrow> bool" where
  "truthy v = (case v of None \<Rightarrow> False | Some s \<Rightarrow> s \<noteq> [])"

text \<open>
  \<^verbatim>\<open>s.split(sep)\<close> for a non-empty separator: the occurrences of \<open>sep\<close> are found from
  left to right without overlap, and the pieces between them are returned, so the result has
  one more element than there are occurrences. \<open>cur\<close> is the piece being collected. The
  source only splits at the literals \<^verbatim>\<open>"v="\<close>, \<^verbatim>\<open>"&"\<close> and \<^verbatim>\<open>"/"\<close>; the empty separator,
  for which Python raises \<^verbatim>\<open>ValueError\<close>, never occurs and is not matched here.
\<close>

function split_from :: "str \<Rightarrow> str \<Rightarrow> str \<Rightarrow> str list" where
  "split_from sep cur [] = [cur]"
| "split_from sep cur (c # cs) =
     (if sep \<noteq> [] \<and> prefix sep (c # cs)
      then cur # split_from sep [] (drop (length sep) (c # cs))
      else split_from sep (cur @ [c]) cs)"
  by pat_completeness auto
termination
  by (relation "measure (\<lambda>(sep, cur, rest). length rest)") auto

definition split :: "str \<Rightarrow> str \<Rightarrow> str list" where
  "split s sep = split_from sep [] s"

section \<open>Video identifier extraction\<close>

text \<open>
  \<^verbatim>\<open>extract_video_id\<close> (lines 127-140). \<^verbatim>\<open>"v=" in video_url\<close> is the contiguous-sublist
  test. The indexings \<^verbatim>\<open>[1]\<close>, \<^verbatim>\<open>[0]\<close> and \<^verbatim>\<open>[-1]\<close> are kept as fallible reads.
\<close>

definition extract_video_id :: "str \<Rightarrow> exn + str" where
  "extract_video_id video_url =
     (if sublist (lit ''v='') video_url
      then (case getitem (split video_url (lit ''v='')) 1 of
              Inl e \<Rightarrow> Inl e
            | Inr part \<Rightarrow> getitem (split part (lit ''&'')) 0)
      else getitem (split video_url (lit ''/'')) (- 1))"

section \<open>Transcript retrieval\<close>

text \<open>
  The transcript source is outside the repository: \<^verbatim>\<open>YouTubeTranscriptApi.get_transcript\<close>
  gives, for a video identifier and a list of language codes, the \<^verbatim>\<open>text\<close> of each fragment
  in order, or raises; \<^verbatim>\<open>YouTubeTranscriptApi.list_transcripts\<close> gives the language codes
  on offer, or raises.
\<close>

record transcript_api =
  get_transcript :: "str \<Rightarrow> str list \<Rightarrow> exn + str list"
  list_transcripts :: "str \<Rightarrow> exn + str list"

text \<open>\<^verbatim>\<open>sep.join(parts)\<close>.\<close>

fun join :: "str \<Rightarrow> str list \<Rightarrow> str" where
  "join sep [] = []"
| "join sep [part] = part"
| "join sep (part # parts) = part @ sep @ join sep parts"

text \<open>
  \<^verbatim>\<open>get_youtube_transcript\<close> (lines 143-170). The whole body is under
  \<^verbatim>\<open>except Exception\<close>, which returns \<^verbatim>\<open>None\<close>; so does the case of no language on
  offer.
\<close>

definition get_youtube_transcript :: "transcript_api \<Rightarrow> str \<Rightarrow> str option \<Rightarrow> str option" where
  "get_youtube_transcript api video_url language_code =
     (case extract_video_id video_url of
        Inl e \<Rightarrow> None
      | Inr video_id \<Rightarrow>
          (if truthy language_code
           then (case get_transcript api video_id [the language_code] of
                   Inl e \<Rightarrow> None
                 | Inr transcript_data \<Rightarrow> Some (join (lit '' '') transcript_data))
           else (case list_transcripts api video_id of
                   Inl e \<Rightarrow> None
                 | Inr language_codes \<Rightarrow>
                     (if language_codes = [] then None
                      else (case get_transcript api video_id language_codes of
                              Inl e \<Rightarrow> None
                            | Inr transcript_data \<Rightarrow> Some (join (lit '' '') transcript_data))))))"

section \<open>Configuration and process-wide state\<close>

definition MAX_RETRIES :: nat where
  "MAX_RETRIES = 3"

definition BASE_DELAY :: nat where
  "BASE_DELAY = 1"

text \<open>\<^verbatim>\<open>str(n)\<close> for an integer, in decimal.\<close>

function str_nat :: "nat \<Rightarrow> str" where
  "str_nat n = (if n < 10 then [48 + n] else str_nat (n div 10) @ [48 + n mod 10])"
  by pat_completeness auto
termination
  by (relation "measure id") auto

declare str_nat.simps [simp del]

definition str_int :: "int \<Rightarrow> str" where
  "str_int i = (if i < 0 then 45 # str_nat (nat (- i)) else str_nat (nat i))"

text \<open>
  The module body of lines 66-86: \<^verbatim>\<open>API_KEYS\<close> is filled from the environment
  (\<open>getenv\<close> is \<^verbatim>\<open>os.getenv\<close>), the primary variable first, then the variables numbered
  2 to 5; with no key at all a placeholder is used. The list is never changed afterwards.
\<close>

definition load_API_KEYS :: "(str \<Rightarrow> str option) \<Rightarrow> str list" where
  "load_API_KEYS getenv =
     (let google_api_key = getenv (lit ''GOOGLE_API_KEY'');
          keys = (if truthy google_api_key then [the google_api_key] else []) @
                 concat (map (\<lambda>i. let additional_key = getenv (lit ''GOOGLE_API_KEY_'' @ str_nat i)
                                    in if truthy additional_key then [the additional_key] else [])
                             [2..<6])
      in if keys = [] then [lit ''your_google_api_key_here''] else keys)"

text \<open>
  A model handle is determined by the credential it was built with (model name, generation
  parameters and safety settings are constants of the module).
\<close>

datatype model = GenerativeModel (credential: str)

text \<open>
  What the retry loop does to the outside, in the order it happens: a call of
  \<^verbatim>\<open>model.generate_content(prompt)\<close> with the loop index \<^verbatim>\<open>attempt\<close> at which it is made
  (line 188), the increment of \<^verbatim>\<open>current_api_key_index\<close> to a new value (line 208) together
  with the outcome of rebuilding the handle (line 211: rebuilt, or the rebuild raised), and
  \<^verbatim>\<open>time.sleep(delay)\<close> (line 219). The \<^verbatim>\<open>print\<close> calls are not recorded.
\<close>

datatype event =
    Call nat model str
  | Rotate int model
  | RebuildFailed int
  | Sleep nat

text \<open>
  The mutable global \<^verbatim>\<open>current_api_key_index\<close> (line 86, a Python integer), and the log
  of events so far. The log is not part of the program: it records the effects so that
  statements about calls, rotations and delays can be made.
\<close>

record state =
  current_api_key_index :: int
  events :: "event list"

definition initial_state :: state where
  "initial_state = \<lparr>current_api_key_index = 0, events = []\<rparr>"

text \<open>
  The completion service answers with a response object or raises. A response has a
  \<^verbatim>\<open>text\<close> (\<^verbatim>\<open>None\<close> or a string) and a list of candidates; a candidate may lack the attribute
  \<^verbatim>\<open>finish_reason\<close> (\<open>None\<close> here) or have one with a \<^verbatim>\<open>name\<close>. Every statement of the
  \<^verbatim>\<open>try\<close> block (lines 188-201) is under the same handler and none changes the state, so
  anything raised there, by the call itself or by reading an attribute of what it returned
  (a \<^verbatim>\<open>None\<close> response, a \<^verbatim>\<open>finish_reason\<close> without \<^verbatim>\<open>name\<close>), is the outcome \<open>Raised\<close>
  with \<^verbatim>\<open>str(e)\<close>.
\<close>

datatype candidate = Candidate (finish_reason: "str option")

datatype response = Response (response_text: "str option") (candidates: "candidate list")

datatype outcome = Returned response | Raised str

text \<open>
  What the code consumes from outside the repository: the credential list, the override
  variable \<^verbatim>\<open>GEMINI_API_KEY\<close>, the completion service (its answer may depend on everything
  that happened before, on the handle and on the prompt), whether
  \<^verbatim>\<open>genai.configure\<close>/\<^verbatim>\<open>genai.GenerativeModel\<close> raise for a credential (\<open>Some\<close> message), and
  Python's \<^verbatim>\<open>str.lower\<close> on strings that have a code point outside Latin-1.
\<close>

record world =
  API_KEYS :: "str list"
  GEMINI_API_KEY :: "str option"
  generate_content :: "event list \<Rightarrow> model \<Rightarrow> str \<Rightarrow> outcome"
  genai_error :: "str \<Rightarrow> str option"
  unicode_lower :: "str \<Rightarrow> str"

text \<open>
  \<^verbatim>\<open>str.lower\<close>: on Latin-1 it maps the capital letters A-Z, U+00C0-U+00D6 and
  U+00D8-U+00DE to the letter 32 places further and leaves every other code point alone.
\<close>

definition lower_latin1 :: "nat \<Rightarrow> nat" where
  "lower_latin1 c =
     (if (65 \<le> c \<and> c \<le> 90) \<or> (192 \<le> c \<and> c \<le> 222 \<and> c \<noteq> 215) then c + 32 else c)"

definition lower :: "world \<Rightarrow> str \<Rightarrow> str" where
  "lower w s = (if list_all (\<lambda>c. c < 256) s then map lower_latin1 s else unicode_lower w s)"

text \<open>\<^verbatim>\<open>get_current_api_status\<close> (lines 88-94).\<close>

record api_status =
  current_key_index :: int
  total_keys :: int
  remaining_keys :: int

definition get_current_api_status :: "world \<Rightarrow> state \<Rightarrow> api_status" where
  "get_current_api_status w s =
     \<lparr>current_key_index = current_api_key_index s + 1,
      total_keys = int (length (API_KEYS w)),
      remaining_keys = int (length (API_KEYS w)) - current_api_key_index s - 1\<rparr>"

section \<open>Model and credential binding\<close>

text \<open>
  \<^verbatim>\<open>create_gemini_model\<close> (lines 373-399). It reads the index and does not change it.
\<close>

definition create_gemini_model :: "world \<Rightarrow> state \<Rightarrow> exn + model" where
  "create_gemini_model w s =
     (case (if truthy (GEMINI_API_KEY w) then Inr (the (GEMINI_API_KEY w))
            else if current_api_key_index s < int (length (API_KEYS w))
            then getitem (API_KEYS w) (current_api_key_index s)
            else Inl (Exception (lit
              ''All API keys have been exhausted. Please add more keys or wait for quota reset.'')))
      of Inl e \<Rightarrow> Inl e
       | Inr api_key \<Rightarrow>
           (case genai_error w api_key of
              Some msg \<Rightarrow> Inl (Exception msg)
            | None \<Rightarrow> Inr (GenerativeModel api_key)))"

section \<open>The resilient completion client\<close>

text \<open>
  The two keyword tests of the handler (lines 205 and 227), on \<^verbatim>\<open>str(e).lower()\<close>.
\<close>

definition rate_limit_error :: "world \<Rightarrow> str \<Rightarrow> bool" where
  "rate_limit_error w e =
     list_ex (\<lambda>keyword. sublist keyword (lower w e)) [lit ''429'', lit ''quota'', lit ''rate limit'']"

definition bad_key_error :: "world \<Rightarrow> str \<Rightarrow> bool" where
  "bad_key_error w e =
     list_ex (\<lambda>keyword. sublist keyword (lower w e))
       [lit ''400'', lit ''api key'', lit ''invalid'', lit ''expired'']"

text \<open>
  One pass through the body of \<^verbatim>\<open>for attempt in range(MAX_RETRIES)\<close> (lines 187-230) ends
  in \<^verbatim>\<open>return\<close> or in \<^verbatim>\<open>continue\<close>; \<^verbatim>\<open>continue\<close> carries the handle that the next pass
  uses, since the rotation assigns to \<^verbatim>\<open>model\<close>.
\<close>

datatype control = Return str | Continue model

definition attempt_body :: "world \<Rightarrow> nat \<Rightarrow> model \<Rightarrow> str \<Rightarrow> state \<Rightarrow> control \<times> state" where
  "attempt_body w attempt model prompt s0 =
     (let s = s0\<lparr>events := events s0 @ [Call attempt model prompt]\<rparr> in
      case generate_content w (events s0) model prompt of
        Returned response \<Rightarrow>
          (if truthy (response_text response) then (Return (the (response_text response)), s)
           else
             (case candidates response of
                candidate # _ \<Rightarrow>
                  (if finish_reason candidate = Some (lit ''SAFETY'')
                   then (Return (lit ''Error: Content blocked by safety filter.''), s)
                   else (Return (lit ''Error: Empty response. Finish Reason: '' @
                           (case finish_reason candidate of
                              Some name \<Rightarrow> name
                            | None \<Rightarrow> lit ''UNKNOWN'')), s))
              | [] \<Rightarrow> (Return (lit ''Error: No response generated.''), s)))
      | Raised e \<Rightarrow>
          (if rate_limit_error w e then
             (let switched =
                (if current_api_key_index s < int (length (API_KEYS w)) - 1
                 then
                   (let s1 = s\<lparr>current_api_key_index := current_api_key_index s + 1\<rparr> in
                    case create_gemini_model w s1 of
                      Inr model' \<Rightarrow>
                        (s1\<lparr>events := events s1 @ [Rotate (current_api_key_index s1) model']\<rparr>,
                         Some model')
                    | Inl key_error \<Rightarrow>
                        (s1\<lparr>events := events s1 @ [RebuildFailed (current_api_key_index s1)]\<rparr>,
                         None))
                 else (s, None))
              in case switched of
                   (s2, Some model') \<Rightarrow> (Continue model', s2)
                 | (s2, None) \<Rightarrow>
                     (if attempt < MAX_RETRIES - 1
                      then (Continue model,
                            s2\<lparr>events := events s2 @ [Sleep (BASE_DELAY * 2 ^ attempt)]\<rparr>)
                      else
                        (let remaining_keys =
                               int (length (API_KEYS w)) - current_api_key_index s2 - 1
                         in if remaining_keys > 0
                            then (Return (lit ''Error: API quota exceeded. '' @ str_int remaining_keys @
                                    lit '' backup keys remaining but all failed. Please try again later.''),
                                  s2)
                            else (Return (lit
                                    ''Error: All API keys have been exhausted. Please wait for quota reset or add more API keys.''),
                                  s2))))
           else if bad_key_error w e
           then (Return (lit
                   ''Error: Invalid or expired API key. Please check your API key configuration.''), s)
           else (Return (lit ''Error during summarization: '' @ e), s)))"

text \<open>
  The loop over the values of \<^verbatim>\<open>attempt\<close>; when they are used up the statement after the
  loop (line 232) returns.
\<close>

fun for_attempts :: "world \<Rightarrow> nat list \<Rightarrow> model \<Rightarrow> str \<Rightarrow> state \<Rightarrow> str \<times> state" where
  "for_attempts w [] model prompt s =
     (lit ''Error: Failed to generate summary after multiple attempts.'', s)"
| "for_attempts w (attempt # rest) model prompt s =
     (case attempt_body w attempt model prompt s of
        (Return result, s') \<Rightarrow> (result, s')
      | (Continue model', s') \<Rightarrow> for_attempts w rest model' prompt s')"

text \<open>\<^verbatim>\<open>generate_summary_with_retry\<close> (lines 173-232).\<close>

definition generate_summary_with_retry :: "world \<Rightarrow> model \<Rightarrow> str \<Rightarrow> state \<Rightarrow> str \<times> state" where
  "generate_summary_with_retry w model prompt s = for_attempts w [0..<MAX_RETRIES] model prompt s"

section \<open>Prompt construction and the two summarize entry points\<close>

text \<open>
  \<^verbatim>\<open>if len(transcript) > max_transcript_length: transcript = transcript[:max_transcript_length] + "..."\<close>
  (lines 251-252 and 296-297).
\<close>

definition truncate_transcript :: "nat \<Rightarrow> str \<Rightarrow> str" where
  "truncate_transcript max_transcript_length transcript =
     (if length transcript > max_transcript_length
      then take max_transcript_length transcript @ lit ''...''
      else transcript)"

text \<open>The prompt of \<^verbatim>\<open>summarize_transcript\<close> (lines 249-265).\<close>

definition simple_prompt :: "str \<Rightarrow> str" where
  "simple_prompt transcript =
     lit ''Summarize this YouTube video transcript in an organized format:\<newline>\<newline>'' @
     truncate_transcript 8000 transcript @
     lit ''\<newline>\<newline>Provide a clear summary covering:\<newline>1. Main Topic\<newline>2. Key Points (3-5 points)\<newline>3. Important Details\<newline>4. Conclusions\<newline>\<newline>Summary:''"

text \<open>\<^verbatim>\<open>summarize_transcript\<close> (lines 235-267); the transcript may be \<^verbatim>\<open>None\<close>.\<close>

definition summarize_transcript :: "world \<Rightarrow> str option \<Rightarrow> model \<Rightarrow> state \<Rightarrow> str \<times> state" where
  "summarize_transcript w transcript model s =
     (if \<not> truthy transcript then (lit ''Error: Transcript is empty.'', s)
      else generate_summary_with_retry w model (simple_prompt (the transcript)) s)"

text \<open>
  \<^verbatim>\<open>d.get(key, default)\<close> on a dictionary written as its list of items.
\<close>

definition dict_get :: "('k \<times> 'v) list \<Rightarrow> 'k \<Rightarrow> 'v \<Rightarrow> 'v" where
  "dict_get d key dflt = (case map_of d key of Some v \<Rightarrow> v | None \<Rightarrow> dflt)"

text \<open>The character budget of lines 289-294.\<close>

definition max_transcript_length :: "str \<Rightarrow> nat" where
  "max_transcript_length detail_level =
     (if detail_level = lit ''brief'' then 6000
      else if detail_level = lit ''detailed'' then 12000
      else 8000)"

text \<open>
  The table \<^verbatim>\<open>style_prompts\<close> (lines 300-336). The bullet is U+2022 (8226); the clock faces
  are U+1F550, U+1F555, U+1F558 and U+1F55B (128336, 128341, 128344, 128347).
\<close>

definition style_prompts :: "(str \<times> str) list" where
  "style_prompts =
     [(lit ''default'',
       lit ''Provide a clear summary covering:\<newline>1. Main Topic\<newline>2. Key Points (3-5 points)\<newline>3. Important Details\<newline>4. Conclusions''),
      (lit ''bullet-points'',
       lit ''Provide a bullet-point summary with:\<newline>'' @
       [8226] @ lit '' Main topic and overview\<newline>'' @
       [8226] @ lit '' Key points (use bullet points throughout)\<newline>'' @
       [8226] @ lit '' Important details (as sub-bullets)\<newline>'' @
       [8226] @ lit '' Final conclusions''),
      (lit ''paragraphs'',
       lit ''Provide a well-structured paragraph summary with:\<newline>- Opening paragraph: Main topic and context\<newline>- Body paragraphs: Key points and details (2-3 paragraphs)\<newline>- Closing paragraph: Conclusions and takeaways''),
      (lit ''qa'',
       lit ''Provide a Q&A format summary with:\<newline>Q: What is the main topic of this video?\<newline>A: [Answer]\<newline>\<newline>Q: What are the key points discussed?\<newline>A: [Answer]\<newline>\<newline>Q: What are the most important details?\<newline>A: [Answer]\<newline>\<newline>Q: What conclusions are drawn?\<newline>A: [Answer]''),
      (lit ''timeline'',
       lit ''Provide a timeline-style summary with:\<newline>'' @
       [128336] @ lit '' Beginning: [What starts the discussion]\<newline>'' @
       [128341] @ lit '' Early Discussion: [Initial key points]\<newline>'' @
       [128344] @ lit '' Middle: [Main content and details]\<newline>'' @
       [128347] @ lit '' End: [Conclusions and final thoughts]'')]"

text \<open>
  \<^verbatim>\<open>style_prompts.get(summary_style, style_prompts['default'])\<close> (line 346); the key
  \<^verbatim>\<open>'default'\<close> is the first item of the table, so the second lookup cannot fail.
\<close>

definition style_instruction :: "str \<Rightarrow> str" where
  "style_instruction summary_style =
     dict_get style_prompts summary_style (snd (hd style_prompts))"

definition detail_instructions :: "(str \<times> str) list" where
  "detail_instructions =
     [(lit ''brief'', lit ''Keep it concise and focus only on the most essential information.''),
      (lit ''medium'', lit ''Provide a balanced level of detail with key information.''),
      (lit ''detailed'',
       lit ''Include comprehensive details, examples, and thorough explanations.'')]"

text \<open>
  \<^verbatim>\<open>detail_instructions.get(detail_level, detail_instructions['medium'])\<close> (line 347);
  \<^verbatim>\<open>'medium'\<close> is the second item.
\<close>

definition detail_instruction :: "str \<Rightarrow> str" where
  "detail_instruction detail_level =
     dict_get detail_instructions detail_level (snd (detail_instructions ! 1))"

definition language_names :: "(str \<times> str) list" where
  "language_names =
     [(lit ''es'', lit ''Spanish''), (lit ''fr'', lit ''French''), (lit ''de'', lit ''German''),
      (lit ''it'', lit ''Italian''), (lit ''pt'', lit ''Portuguese''), (lit ''ru'', lit ''Russian''),
      (lit ''ja'', lit ''Japanese''), (lit ''ko'', lit ''Korean''), (lit ''zh'', lit ''Chinese''),
      (lit ''ar'', lit ''Arabic''), (lit ''hi'', lit ''Hindi'')]"

text \<open>Lines 350-358.\<close>

definition translation_instruction :: "str \<Rightarrow> str" where
  "translation_instruction translate_to =
     (if translate_to \<noteq> lit ''none''
      then (let target_language = dict_get language_names translate_to translate_to
            in lit ''\<newline>\<newline>IMPORTANT: Translate the entire summary to '' @ target_language @ lit ''.'')
      else [])"

text \<open>The prompt of \<^verbatim>\<open>summarize_transcript_advanced\<close> (lines 288-368).\<close>

definition advanced_prompt :: "str \<Rightarrow> str \<Rightarrow> str \<Rightarrow> str \<Rightarrow> str" where
  "advanced_prompt transcript summary_style detail_level translate_to =
     lit ''Summarize this YouTube video transcript in the requested format:\<newline>\<newline>'' @
     truncate_transcript (max_transcript_length detail_level) transcript @
     lit ''\<newline>\<newline>'' @ style_instruction summary_style @
     lit ''\<newline>\<newline>Instructions: '' @ detail_instruction detail_level @
     translation_instruction translate_to @
     lit ''\<newline>\<newline>Summary:''"

text \<open>\<^verbatim>\<open>summarize_transcript_advanced\<close> (lines 270-370).\<close>

definition summarize_transcript_advanced ::
    "world \<Rightarrow> str option \<Rightarrow> model \<Rightarrow> str \<Rightarrow> str \<Rightarrow> str \<Rightarrow> state \<Rightarrow> str \<times> state" where
  "summarize_transcript_advanced w transcript model summary_style detail_level translate_to s =
     (if \<not> truthy transcript then (lit ''Error: Transcript is empty.'', s)
      else generate_summary_with_retry w model
             (advanced_prompt (the transcript) summary_style detail_level translate_to) s)"

section \<open>Notions used to state the properties\<close>

text \<open>The events that a call added to the log.\<close>

definition new_events :: "state \<Rightarrow> state \<Rightarrow> event list" where
  "new_events s s' = drop (length (events s)) (events s')"

fun is_call :: "event \<Rightarrow> bool" where
  "is_call (Call a m p) = True"
| "is_call e = False"

fun is_rotation :: "event \<Rightarrow> bool" where
  "is_rotation (Rotate k m) = True"
| "is_rotation e = False"

fun is_sleep :: "event \<Rightarrow> bool" where
  "is_sleep (Sleep d) = True"
| "is_sleep e = False"

text \<open>The events at which line 208 ran, whatever became of the rebuild.\<close>

fun index_change :: "event \<Rightarrow> bool" where
  "index_change (Rotate k m) = True"
| "index_change (RebuildFailed k) = True"
| "index_change e = False"

text \<open>The outcomes that enter the rate-limit branch of the handler.\<close>

definition rate_limited :: "world \<Rightarrow> outcome \<Rightarrow> bool" where
  "rate_limited w out = (case out of Raised e \<Rightarrow> rate_limit_error w e | Returned r \<Rightarrow> False)"

text \<open>
  Where the retry after a rotation is made. In a log, every \<open>Rotate\<close> stands directly after
  the failed call, at some loop index \<open>a\<close>; directly after it (so with no \<open>Sleep\<close> between)
  comes the retry with the rebuilt handle and the same prompt, at loop index
  \<open>next_attempt a\<close>, unless the log ends there, which is only allowed when
  \<open>next_attempt a\<close> is no loop index any more.
\<close>

fun retry_after_rotation :: "(nat \<Rightarrow> nat) \<Rightarrow> event list \<Rightarrow> bool" where
  "retry_after_rotation next_attempt (Call a m p # Rotate k m' # es) =
     ((case es of
         [] \<Rightarrow> MAX_RETRIES \<le> next_attempt a
       | e # _ \<Rightarrow> e = Call (next_attempt a) m' p) \<and>
      retry_after_rotation next_attempt es)"
| "retry_after_rotation next_attempt (Rotate k m' # es) = False"
| "retry_after_rotation next_attempt (e # es) = retry_after_rotation next_attempt es"
| "retry_after_rotation next_attempt [] = True"

text \<open>
  The reading of the specification: the retry has the loop index of the failed call.
\<close>

definition rotation_uncounted :: "event list \<Rightarrow> bool" where
  "rotation_uncounted tr = retry_after_rotation (\<lambda>a. a) tr"

text \<open>
  What \<^verbatim>\<open>continue\<close> does in a \<^verbatim>\<open>for\<close> loop: the retry has the next loop index.
\<close>

definition rotation_counted :: "event list \<Rightarrow> bool" where
  "rotation_counted tr = retry_after_rotation Suc tr"

text \<open>
  The four-point outline (Main Topic, Key Points, Important Details, Conclusions), as the
  text that the prompts of the two entry points are compared with.
\<close>

definition four_point_outline :: str where
  "four_point_outline =
     lit ''Provide a clear summary covering:\<newline>1. Main Topic\<newline>2. Key Points (3-5 points)\<newline>3. Important Details\<newline>4. Conclusions''"

text \<open>The messages of lines 224, 226 and 232.\<close>

definition backup_keys_message :: "int \<Rightarrow> str" where
  "backup_keys_message remaining =
     lit ''Error: API quota exceeded. '' @ str_int remaining @
     lit '' backup keys remaining but all failed. Please try again later.''"

definition keys_exhausted_message :: str where
  "keys_exhausted_message =
     lit ''Error: All API keys have been exhausted. Please wait for quota reset or add more API keys.''"

definition attempts_used_message :: str where
  "attempts_used_message = lit ''Error: Failed to generate summary after multiple attempts.''"

section \<open>Services used as concrete inputs\<close>

text \<open>A service whose every call raises the quota error of the provider.\<close>

definition quota_error :: str where
  "quota_error = lit ''429 Resource has been exhausted (e.g. check quota).''"

definition quota_world :: "str list \<Rightarrow> world" where
  "quota_world keys =
     \<lparr>API_KEYS = keys, GEMINI_API_KEY = None,
      generate_content = (\<lambda>tr m p. Raised quota_error),
      genai_error = (\<lambda>key. None), unicode_lower = (\<lambda>s. s)\<rparr>"

text \<open>The same service, with a provider library that raises whenever a handle is built.\<close>

definition broken_rebuild_world :: "str list \<Rightarrow> world" where
  "broken_rebuild_world keys =
     \<lparr>API_KEYS = keys, GEMINI_API_KEY = None,
      generate_content = (\<lambda>tr m p. Raised quota_error),
      genai_error = (\<lambda>key. Some (lit ''configure failed'')), unicode_lower = (\<lambda>s. s)\<rparr>"

text \<open>A service that answers every call with the given response.\<close>

definition answering_world :: "str list \<Rightarrow> response \<Rightarrow> world" where
  "answering_world keys r =
     \<lparr>API_KEYS = keys, GEMINI_API_KEY = None,
      generate_content = (\<lambda>tr m p. Returned r),
      genai_error = (\<lambda>key. None), unicode_lower = (\<lambda>s. s)\<rparr>"

text \<open>
  The message of the \<^verbatim>\<open>ValueError\<close> that the provider library raises when \<^verbatim>\<open>response.text\<close>
  is read on a response without parts, which is what it returns for a generation blocked for
  safety. The library is not part of the repository; the message is the one of the releases
  that serve the model named in line 396.
\<close>

definition text_accessor_error :: str where
  "text_accessor_error =
     lit ''Invalid operation: The `response.text` quick accessor requires the response to contain a valid `Part`, but none were returned. Please check the `candidate.safety_ratings` to determine if the response was blocked.''"

text \<open>
  A service whose every generation is blocked for safety: line 190 raises while it reads
  the text, so the outcome of the \<^verbatim>\<open>try\<close> block is \<open>Raised\<close> with that message.
\<close>

definition safety_blocked_world :: "str list \<Rightarrow> world" where
  "safety_blocked_world keys =
     \<lparr>API_KEYS = keys, GEMINI_API_KEY = None,
      generate_content = (\<lambda>tr m p. Raised text_accessor_error),
      genai_error = (\<lambda>key. None), unicode_lower = (\<lambda>s. s)\<rparr>"

text \<open>A transcript source whose every request raises.\<close>

definition failing_api :: transcript_api where
  "failing_api =
     \<lparr>get_transcript = (\<lambda>video_id languages. Inl (Exception (lit ''Could not retrieve a transcript''))),
      list_transcripts = (\<lambda>video_id. Inl (Exception (lit ''Could not retrieve a transcript'')))\<rparr>"

section \<open>Facts about splitting\<close>

lemma split_from_nonempty: "split_from sep cur xs \<noteq> []"
  by (induction sep cur xs rule: split_from.induct) auto

lemma split_from_skip:
  assumes "\<forall>i < length pre. \<not> prefix sep (drop i (pre @ rest))"
  shows "split_from sep cur (pre @ rest) = split_from sep (cur @ pre) rest"
  using assms
proof (induction pre arbitrary: cur)
  case Nil
  then show ?case by simp
next
  case (Cons p ps)
  from Cons.prems have here: "\<not> prefix sep (p # ps @ rest)"
    by (metis append_Cons drop0 length_greater_0_conv list.distinct(1))
  have later: "\<forall>i < length ps. \<not> prefix sep (drop i (ps @ rest))"
  proof (intro allI impI)
    fix i assume "i < length ps"
    then have "Suc i < length (p # ps)" by simp
    with Cons.prems have "\<not> prefix sep (drop (Suc i) ((p # ps) @ rest))" by blast
    then show "\<not> prefix sep (drop i (ps @ rest))" by simp
  qed
  from here have "split_from sep cur ((p # ps) @ rest) = split_from sep (cur @ [p]) (ps @ rest)"
    by simp
  also have "\<dots> = split_from sep ((cur @ [p]) @ ps) rest"
    using Cons.IH [OF later] .
  finally show ?case by simp
qed

lemma split_from_at_sep:
  assumes "sep \<noteq> []"
  shows "split_from sep cur (sep @ rest) = cur # split_from sep [] rest"
proof -
  obtain c cs where sep: "sep = c # cs" using assms by (cases sep) auto
  have "split_from sep cur (c # (cs @ rest)) =
          cur # split_from sep [] (drop (length sep) (c # (cs @ rest)))"
    using assms by (simp add: sep)
  then show ?thesis by (simp add: sep)
qed

lemma split_from_head_prefix:
  "\<exists>r. prefix r xs \<and> hd (split_from sep cur xs) = cur @ r"
proof (induction sep cur xs rule: split_from.induct)
  case (1 sep cur)
  then show ?case by simp
next
  case (2 sep cur c cs)
  show ?case
  proof (cases "sep \<noteq> [] \<and> prefix sep (c # cs)")
    case True
    then have "hd (split_from sep cur (c # cs)) = cur @ []" by simp
    then show ?thesis using Nil_prefix by blast
  next
    case False
    with 2 obtain r where r: "prefix r cs" "hd (split_from sep (cur @ [c]) cs) = (cur @ [c]) @ r"
      by auto
    from False r have "hd (split_from sep cur (c # cs)) = cur @ (c # r)" by auto
    moreover have "prefix (c # r) (c # cs)" using r by simp
    ultimately show ?thesis by blast
  qed
qed

lemma split_from_char_head:
  "hd (split_from [c] cur xs) = cur @ takeWhile (\<lambda>x. x \<noteq> c) xs"
  by (induction xs arbitrary: cur) auto

lemma split_from_char_absent:
  "c \<notin> set xs \<Longrightarrow> split_from [c] cur xs = [cur @ xs]"
  by (induction xs arbitrary: cur) auto

lemma split_from_char_last:
  "last (split_from [c] cur (xs @ c # ys)) = last (split_from [c] [] ys)"
  by (induction xs arbitrary: cur) (auto simp: split_from_nonempty)

section \<open>Facts about indexing and identifier extraction\<close>

lemma getitem_first: "xs \<noteq> [] \<Longrightarrow> getitem xs 0 = Inr (hd xs)"
  by (cases xs) (auto simp: getitem_def)

lemma getitem_second: "ys \<noteq> [] \<Longrightarrow> getitem (x # ys) 1 = Inr (hd ys)"
  by (cases ys) (auto simp: getitem_def)

lemma getitem_last: "xs \<noteq> [] \<Longrightarrow> getitem xs (- 1) = Inr (last xs)"
proof -
  assume ne: "xs \<noteq> []"
  then have "nat (int (length xs) + - 1) = length xs - 1" by (cases xs) auto
  with ne show ?thesis by (cases xs) (auto simp: getitem_def last_conv_nth)
qed

lemma pair_not_across:
  assumes "\<not> sublist [a, b] xs" and "ys = [] \<or> hd ys \<noteq> b"
  shows "\<forall>i < length xs. \<not> prefix [a, b] (drop i (xs @ ys))"
proof (intro allI impI notI)
  fix i assume i: "i < length xs" and p: "prefix [a, b] (drop i (xs @ ys))"
  from i have d: "drop i (xs @ ys) = drop i xs @ ys" by simp
  from i obtain e es where es: "drop i xs = e # es" by (cases "drop i xs") auto
  show False
  proof (cases es)
    case Nil
    with p d es assms(2) show False by (cases ys) auto
  next
    case (Cons f fs)
    with p d es have "prefix [a, b] (drop i xs)" by simp
    then have "sublist [a, b] xs"
      by (meson prefix_imp_sublist sublist_drop sublist_order.order_trans)
    with assms(1) show False by simp
  qed
qed

lemma extract_query_form:
  assumes pre: "\<not> sublist (lit ''v='') pre"
    and ident: "\<not> sublist (lit ''v='') ident" "of_char CHR ''&'' \<notin> set ident"
    and rest: "rest = [] \<or> hd rest = of_char CHR ''&''"
  shows "extract_video_id (pre @ lit ''?v='' @ ident @ rest) = Inr ident"
proof -
  let ?url = "pre @ lit ''?v='' @ ident @ rest"
  let ?v = "[118, 61] :: str"
  have v: "lit ''v='' = ?v" by (simp add: lit_def)
  have url: "?url = pre @ 63 # ?v @ ident @ rest" by (simp add: lit_def)
  have "sublist ?v ((pre @ [63]) @ ?v @ (ident @ rest))" by (rule sublist_appendI)
  then have has: "sublist ?v ?url" by (simp add: url)
  have "split_from ?v [] ?url = split_from ?v ([] @ pre) (63 # ?v @ ident @ rest)"
    unfolding url using pre by (intro split_from_skip pair_not_across) (simp_all add: v)
  also have "\<dots> = split_from ?v (pre @ [63]) (?v @ ident @ rest)" by simp
  also have "\<dots> = (pre @ [63]) # split_from ?v [] (ident @ rest)"
    by (rule split_from_at_sep) simp
  finally have parts: "split ?url ?v = (pre @ [63]) # split_from ?v [] (ident @ rest)"
    by (simp add: split_def)
  have "split_from ?v [] (ident @ rest) = split_from ?v ([] @ ident) rest"
    using ident(1) rest by (intro split_from_skip pair_not_across) (auto simp: v)
  moreover obtain r where r: "prefix r rest" "hd (split_from ?v ident rest) = ident @ r"
    using split_from_head_prefix by blast
  ultimately have part: "hd (split_from ?v [] (ident @ rest)) = ident @ r" by simp
  have "r = [] \<or> hd r = 38"
    using r(1) rest by (cases r) (auto simp: prefix_def)
  then have "takeWhile (\<lambda>x. x \<noteq> 38) (ident @ r) = ident"
    using ident(2) by (cases r) (auto simp: takeWhile_append)
  then have "hd (split_from [38] [] (ident @ r)) = ident"
    by (simp add: split_from_char_head)
  then have amp: "getitem (split (ident @ r) (lit ''&'')) 0 = Inr ident"
    by (simp add: split_def lit_def getitem_first split_from_nonempty)
  have "getitem (split ?url ?v) 1 = Inr (ident @ r)"
    unfolding parts using part by (simp add: getitem_second split_from_nonempty)
  with has amp show ?thesis
    by (simp add: extract_video_id_def v)
qed

lemma extract_path_form:
  assumes "\<not> sublist (lit ''v='') (pre @ lit ''/'' @ ident)"
    and "of_char CHR ''/'' \<notin> set ident"
  shows "extract_video_id (pre @ lit ''/'' @ ident) = Inr ident"
proof -
  have "last (split_from [47] [] (pre @ 47 # ident)) = ident"
    using assms(2) by (simp add: split_from_char_last split_from_char_absent)
  then have "getitem (split (pre @ lit ''/'' @ ident) (lit ''/'')) (- 1) = Inr ident"
    by (simp add: split_def lit_def getitem_last split_from_nonempty)
  with assms(1) show ?thesis by (simp add: extract_video_id_def)
qed

section \<open>Identifier extraction on the supported URL shapes\<close>

text \<open>
  Claim C6, as amended. Let the identifier contain neither \<^verbatim>\<open>v=\<close> nor \<^verbatim>\<open>&\<close>. For a URL
  made of a text without \<^verbatim>\<open>v=\<close>, then \<^verbatim>\<open>?v=\<close>, then the identifier, then nothing or a
  text that starts with \<^verbatim>\<open>&\<close>, the extraction returns exactly the identifier. Let the
  identifier contain no \<^verbatim>\<open>/\<close>. For a URL made of a text, then \<^verbatim>\<open>/\<close>, then the identifier,
  and with no \<^verbatim>\<open>v=\<close> anywhere, the extraction returns exactly the identifier.
\<close>

theorem extract_video_id_supported_shapes:
  "(\<not> sublist (lit ''v='') pre \<and> \<not> sublist (lit ''v='') ident \<and>
    of_char CHR ''&'' \<notin> set ident \<and> (rest = [] \<or> prefix (lit ''&'') rest)
    \<longrightarrow> extract_video_id (pre @ lit ''?v='' @ ident @ rest) = Inr ident) \<and>
   (\<not> sublist (lit ''v='') (pre @ lit ''/'' @ ident) \<and> of_char CHR ''/'' \<notin> set ident
    \<longrightarrow> extract_video_id (pre @ lit ''/'' @ ident) = Inr ident)"
proof -
  have "rest = [] \<or> hd rest = of_char CHR ''&''" if "rest = [] \<or> prefix (lit ''&'') rest"
    using that by (auto simp: lit_def prefix_def)
  then show ?thesis
    using extract_query_form [of pre ident rest] extract_path_form [of pre ident] by blast
qed

text \<open>
  The theorem of claim C6 at a watch URL with a further parameter and at a short link.
\<close>

theorem extract_video_id_supported_shapes_witness:
  "extract_video_id (lit ''https://www.youtube.com/watch'' @ lit ''?v='' @ lit ''dQw4w9WgXcQ'' @
                     lit ''&t=1'') = Inr (lit ''dQw4w9WgXcQ'') \<and>
   extract_video_id (lit ''https://youtu.be'' @ lit ''/'' @ lit ''dQw4w9WgXcQ'') =
     Inr (lit ''dQw4w9WgXcQ'')"
proof -
  have q: "\<not> sublist (lit ''v='') (lit ''https://www.youtube.com/watch'') \<and>
      \<not> sublist (lit ''v='') (lit ''dQw4w9WgXcQ'') \<and>
      of_char CHR ''&'' \<notin> set (lit ''dQw4w9WgXcQ'') \<and>
      (lit ''&t=1'' = [] \<or> prefix (lit ''&'') (lit ''&t=1''))"
    by code_simp
  have p: "\<not> sublist (lit ''v='') (lit ''https://youtu.be'' @ lit ''/'' @ lit ''dQw4w9WgXcQ'') \<and>
      of_char CHR ''/'' \<notin> set (lit ''dQw4w9WgXcQ'')"
    by code_simp
  show ?thesis
    using q p
      extract_video_id_supported_shapes
        [of "lit ''https://www.youtube.com/watch''" "lit ''dQw4w9WgXcQ''" "lit ''&t=1''"]
      extract_video_id_supported_shapes
        [of "lit ''https://youtu.be''" "lit ''dQw4w9WgXcQ''" "[]"]
    by blast
qed

text \<open>
  Claim C6 as stated fails: the URL below has the query-parameter form, with the identifier
  \<^verbatim>\<open>abc123\<close> after \<^verbatim>\<open>?v=\<close> and up to the end of the string, but the text before \<^verbatim>\<open>?v=\<close>
  has an earlier \<^verbatim>\<open>v=\<close>, and the extraction returns what follows that one.
\<close>

theorem extract_video_id_earlier_marker_counterexample:
  "extract_video_id (lit ''https://example.com/rev=2/watch'' @ lit ''?v='' @ lit ''abc123'' @ []) =
     Inr (lit ''2/watch?'') \<and>
   Inr (lit ''2/watch?'') \<noteq> (Inr (lit ''abc123'') :: exn + str)"
  by code_simp

section \<open>Facts about one pass and about the loop\<close>

lemma attempt_body_cases [consumes 0, case_names ret rotate failed_sleep failed_return sleep]:
  fixes w a m p s
  defines "called \<equiv> events s @ [Call a m p]"
  defines "k \<equiv> current_api_key_index s + 1"
  obtains
    (ret) r where
      "attempt_body w a m p s = (Return r, s\<lparr>events := called\<rparr>)"
  | (rotate) e m' where
      "generate_content w (events s) m p = Raised e" "rate_limit_error w e"
      "current_api_key_index s < int (length (API_KEYS w)) - 1"
      "attempt_body w a m p s =
         (Continue m', s\<lparr>current_api_key_index := k, events := called @ [Rotate k m']\<rparr>)"
  | (failed_sleep) e where
      "generate_content w (events s) m p = Raised e" "rate_limit_error w e"
      "current_api_key_index s < int (length (API_KEYS w)) - 1" "a < MAX_RETRIES - 1"
      "attempt_body w a m p s =
         (Continue m, s\<lparr>current_api_key_index := k,
                         events := called @ [RebuildFailed k, Sleep (BASE_DELAY * 2 ^ a)]\<rparr>)"
  | (failed_return) e r where
      "generate_content w (events s) m p = Raised e" "rate_limit_error w e"
      "current_api_key_index s < int (length (API_KEYS w)) - 1" "\<not> a < MAX_RETRIES - 1"
      "attempt_body w a m p s =
         (Return r, s\<lparr>current_api_key_index := k, events := called @ [RebuildFailed k]\<rparr>)"
  | (sleep) e where
      "generate_content w (events s) m p = Raised e" "rate_limit_error w e"
      "\<not> current_api_key_index s < int (length (API_KEYS w)) - 1" "a < MAX_RETRIES - 1"
      "attempt_body w a m p s =
         (Continue m, s\<lparr>events := called @ [Sleep (BASE_DELAY * 2 ^ a)]\<rparr>)"
proof (cases "generate_content w (events s) m p")
  case (Returned response)
  then have "\<exists>r. attempt_body w a m p s = (Return r, s\<lparr>events := called\<rparr>)"
    by (auto simp: attempt_body_def called_def Let_def split: list.split)
  then show ?thesis using ret by blast
next
  case (Raised e)
  show ?thesis
  proof (cases "rate_limit_error w e")
    case False
    with Raised have "\<exists>r. attempt_body w a m p s = (Return r, s\<lparr>events := called\<rparr>)"
      by (auto simp: attempt_body_def called_def Let_def)
    then show ?thesis using ret by blast
  next
    case True
    show ?thesis
    proof (cases "current_api_key_index s < int (length (API_KEYS w)) - 1")
      case succ: True
      let ?s1 = "s\<lparr>events := called\<rparr>\<lparr>current_api_key_index := current_api_key_index s + 1\<rparr>"
      show ?thesis
      proof (cases "create_gemini_model w ?s1")
        case (Inr m')
        with Raised True succ have "attempt_body w a m p s =
           (Continue m', s\<lparr>current_api_key_index := k, events := called @ [Rotate k m']\<rparr>)"
          by (simp add: attempt_body_def called_def k_def Let_def)
        with Raised True succ show ?thesis using rotate by blast
      next
        case (Inl err)
        show ?thesis
        proof (cases "a < MAX_RETRIES - 1")
          case True
          with Raised \<open>rate_limit_error w e\<close> succ Inl have "attempt_body w a m p s =
            (Continue m, s\<lparr>current_api_key_index := k,
                         events := called @ [RebuildFailed k, Sleep (BASE_DELAY * 2 ^ a)]\<rparr>)"
            by (simp add: attempt_body_def called_def k_def Let_def)
          with Raised \<open>rate_limit_error w e\<close> succ True show ?thesis using failed_sleep by blast
        next
          case False
          with Raised \<open>rate_limit_error w e\<close> succ Inl have "\<exists>r. attempt_body w a m p s =
            (Return r, s\<lparr>current_api_key_index := k, events := called @ [RebuildFailed k]\<rparr>)"
            by (simp add: attempt_body_def called_def k_def Let_def)
          with Raised \<open>rate_limit_error w e\<close> succ False show ?thesis using failed_return by blast
        qed
      qed
    next
      case nosucc: False
      show ?thesis
      proof (cases "a < MAX_RETRIES - 1")
        case True
        with Raised \<open>rate_limit_error w e\<close> nosucc have "attempt_body w a m p s =
            (Continue m, s\<lparr>events := called @ [Sleep (BASE_DELAY * 2 ^ a)]\<rparr>)"
          by (simp add: attempt_body_def called_def Let_def)
        with Raised \<open>rate_limit_error w e\<close> nosucc True show ?thesis using sleep by blast
      next
        case False
        with Raised \<open>rate_limit_error w e\<close> nosucc
        have "\<exists>r. attempt_body w a m p s = (Return r, s\<lparr>events := called\<rparr>)"
          by (simp add: attempt_body_def called_def Let_def)
        then show ?thesis using ret by blast
      qed
    qed
  qed
qed


lemma new_events_self [simp]: "new_events s s = []"
  by (simp add: new_events_def)

lemma new_events_append:
  "events s' = events s @ tr \<Longrightarrow> new_events s s' = tr"
  by (simp add: new_events_def)

lemma new_events_trans:
  assumes "prefix (events s) (events s')" and "prefix (events s') (events s'')"
  shows "new_events s s'' = new_events s s' @ new_events s' s''"
proof -
  from assms obtain t1 t2 where "events s' = events s @ t1" "events s'' = events s' @ t2"
    by (auto simp: prefix_def)
  then show ?thesis by (simp add: new_events_def)
qed

lemma for_attempts_relation:
  assumes body: "\<And>a m s. P s (snd (attempt_body w a m p s))"
    and refl: "\<And>s. P s s"
    and trans: "\<And>s s' s''. P s s' \<Longrightarrow> P s' s'' \<Longrightarrow> P s s''"
  shows "P s (snd (for_attempts w as m p s))"
proof (induction as arbitrary: m s)
  case Nil
  show ?case by (simp add: refl)
next
  case (Cons a as)
  obtain c s1 where b: "attempt_body w a m p s = (c, s1)" by (cases "attempt_body w a m p s")
  have step: "P s s1" using body [of s a m] b by simp
  show ?case
  proof (cases c)
    case (Return r)
    with b step show ?thesis by simp
  next
    case (Continue m')
    with b have "snd (for_attempts w (a # as) m p s) = snd (for_attempts w as m' p s1)" by simp
    with step Cons.IH [of s1 m'] show ?thesis by (auto intro: trans)
  qed
qed

lemma attempt_body_prefix: "prefix (events s) (events (snd (attempt_body w a m p s)))"
  by (cases w a m p s rule: attempt_body_cases) simp_all

lemma attempt_body_index:
  "current_api_key_index (snd (attempt_body w a m p s)) =
     current_api_key_index s +
     int (length (filter index_change (new_events s (snd (attempt_body w a m p s)))))"
  by (cases w a m p s rule: attempt_body_cases) (simp_all add: new_events_def)

lemma for_attempts_prefix: "prefix (events s) (events (snd (for_attempts w as m p s)))"
  by (rule for_attempts_relation) (auto simp: attempt_body_prefix)

lemma for_attempts_index:
  "current_api_key_index (snd (for_attempts w as m p s)) =
     current_api_key_index s +
     int (length (filter index_change (new_events s (snd (for_attempts w as m p s)))))"
proof -
  let ?P = "\<lambda>s s'. prefix (events s) (events s') \<and>
     current_api_key_index s' =
       current_api_key_index s + int (length (filter index_change (new_events s s')))"
  have "?P s (snd (for_attempts w as m p s))"
  proof (rule for_attempts_relation)
    show "?P s (snd (attempt_body w a m p s))" for a m s
      using attempt_body_prefix attempt_body_index by blast
    show "?P s s" for s by simp
    show "?P s s''" if "?P s s'" "?P s' s''" for s s' s''
    proof -
      from that have "new_events s s'' = new_events s s' @ new_events s' s''"
        by (simp add: new_events_trans)
      with that show ?thesis by (auto intro: prefix_order.order_trans)
    qed
  qed
  then show ?thesis by simp
qed

lemma attempt_body_mono:
  "current_api_key_index s \<le> current_api_key_index (snd (attempt_body w a m p s))"
  by (cases w a m p s rule: attempt_body_cases) simp_all

lemma attempt_body_bound:
  "current_api_key_index (snd (attempt_body w a m p s)) \<le>
     max (current_api_key_index s) (int (length (API_KEYS w)) - 1)"
  by (cases w a m p s rule: attempt_body_cases) simp_all

lemma for_attempts_mono:
  "current_api_key_index s \<le> current_api_key_index (snd (for_attempts w as m p s))"
  by (rule for_attempts_relation) (auto simp: attempt_body_mono)

lemma for_attempts_bound:
  "current_api_key_index (snd (for_attempts w as m p s)) \<le>
     max (current_api_key_index s) (int (length (API_KEYS w)) - 1)"
proof -
  let ?P = "\<lambda>s s'. current_api_key_index s' \<le>
     max (current_api_key_index s) (int (length (API_KEYS w)) - 1)"
  have "?P s (snd (for_attempts w as m p s))"
    by (rule for_attempts_relation) (auto simp: attempt_body_bound)
  then show ?thesis .
qed

lemma for_attempts_from:
  "a \<le> MAX_RETRIES \<Longrightarrow>
     (a < MAX_RETRIES \<longrightarrow>
        (\<exists>tl. new_events s (snd (for_attempts w [a..<MAX_RETRIES] m p s)) = Call a m p # tl)) \<and>
     (a = MAX_RETRIES \<longrightarrow> new_events s (snd (for_attempts w [a..<MAX_RETRIES] m p s)) = []) \<and>
     retry_after_rotation Suc (new_events s (snd (for_attempts w [a..<MAX_RETRIES] m p s))) \<and>
     length (filter is_call (new_events s (snd (for_attempts w [a..<MAX_RETRIES] m p s))))
       \<le> MAX_RETRIES - a"
proof (induction "MAX_RETRIES - a" arbitrary: a m s)
  case 0
  then have "a = MAX_RETRIES" by simp
  then show ?case by simp
next
  case (Suc d)
  then have lt: "a < MAX_RETRIES" and d: "d = MAX_RETRIES - Suc a" and le: "Suc a \<le> MAX_RETRIES"
    by simp_all
  have upt: "[a..<MAX_RETRIES] = a # [Suc a..<MAX_RETRIES]" using lt by (simp add: upt_conv_Cons)
  let ?run = "\<lambda>m' s'. snd (for_attempts w [Suc a..<MAX_RETRIES] m' p s')"
  have IH: "(Suc a < MAX_RETRIES \<longrightarrow> (\<exists>tl. new_events s' (?run m' s') = Call (Suc a) m' p # tl)) \<and>
     (Suc a = MAX_RETRIES \<longrightarrow> new_events s' (?run m' s') = []) \<and>
     retry_after_rotation Suc (new_events s' (?run m' s')) \<and>
     length (filter is_call (new_events s' (?run m' s'))) \<le> MAX_RETRIES - Suc a" for m' s'
    using Suc.hyps(1) [OF d le] .
  have cont: "new_events s (?run m' s') = tr @ new_events s' (?run m' s')"
    if "events s' = events s @ tr" for m' s' tr
  proof -
    have "prefix (events s) (events s')" using that by simp
    then have "new_events s (?run m' s') = new_events s s' @ new_events s' (?run m' s')"
      by (rule new_events_trans) (rule for_attempts_prefix)
    then show ?thesis using that by (simp add: new_events_append)
  qed
  show ?case
  proof (cases w a m p s rule: attempt_body_cases)
    case (ret r)
    then show ?thesis using lt by (simp add: upt new_events_def)
  next
    case (rotate e m')
    let ?s' = "s\<lparr>current_api_key_index := current_api_key_index s + 1,
                 events := (events s @ [Call a m p]) @ [Rotate (current_api_key_index s + 1) m']\<rparr>"
    have run: "snd (for_attempts w [a..<MAX_RETRIES] m p s) = ?run m' ?s'"
      using rotate(4) by (simp add: upt)
    have tr: "new_events s (?run m' ?s') =
        [Call a m p, Rotate (current_api_key_index s + 1) m'] @ new_events ?s' (?run m' ?s')"
      by (rule cont) simp
    show ?thesis using IH [of ?s' m'] lt le unfolding run tr
      by (cases "new_events ?s' (?run m' ?s')") auto
  next
    case (failed_sleep e)
    let ?s' = "s\<lparr>current_api_key_index := current_api_key_index s + 1,
                 events := (events s @ [Call a m p]) @
                   [RebuildFailed (current_api_key_index s + 1), Sleep (BASE_DELAY * 2 ^ a)]\<rparr>"
    have run: "snd (for_attempts w [a..<MAX_RETRIES] m p s) = ?run m ?s'"
      using failed_sleep(5) by (simp add: upt)
    have tr: "new_events s (?run m ?s') =
        [Call a m p, RebuildFailed (current_api_key_index s + 1), Sleep (BASE_DELAY * 2 ^ a)] @
        new_events ?s' (?run m ?s')"
      by (rule cont) simp
    show ?thesis using IH [of ?s' m] lt le unfolding run tr by auto
  next
    case (failed_return e r)
    then show ?thesis using lt by (simp add: upt new_events_def)
  next
    case (sleep e)
    let ?s' = "s\<lparr>events := (events s @ [Call a m p]) @ [Sleep (BASE_DELAY * 2 ^ a)]\<rparr>"
    have run: "snd (for_attempts w [a..<MAX_RETRIES] m p s) = ?run m ?s'"
      using sleep(5) by (simp add: upt)
    have tr: "new_events s (?run m ?s') =
        [Call a m p, Sleep (BASE_DELAY * 2 ^ a)] @ new_events ?s' (?run m ?s')"
      by (rule cont) simp
    show ?thesis using IH [of ?s' m] lt le unfolding run tr by auto
  qed
qed

lemma call_indices:
  "list_all (\<lambda>e. case e of Call a m' p' \<Rightarrow> a \<in> set as | _ \<Rightarrow> True)
     (new_events s (snd (for_attempts w as m p s)))"
proof (induction as arbitrary: m s)
  case Nil
  show ?case by simp
next
  case (Cons a as)
  have weaken: "list_all (\<lambda>e. case e of Call b m' p' \<Rightarrow> b \<in> set (a # as) | _ \<Rightarrow> True) tr"
    if "list_all (\<lambda>e. case e of Call b m' p' \<Rightarrow> b \<in> set as | _ \<Rightarrow> True) tr" for tr
    using that by (auto simp: list_all_iff split: event.splits)
  have cont: "new_events s (snd (for_attempts w as m' p s')) =
      tr @ new_events s' (snd (for_attempts w as m' p s'))"
    if "events s' = events s @ tr" for m' s' tr
  proof -
    have "prefix (events s) (events s')" using that by simp
    then have "new_events s (snd (for_attempts w as m' p s')) =
        new_events s s' @ new_events s' (snd (for_attempts w as m' p s'))"
      by (rule new_events_trans) (rule for_attempts_prefix)
    then show ?thesis using that by (simp add: new_events_append)
  qed
  show ?case
  proof (cases w a m p s rule: attempt_body_cases)
    case (ret r)
    then show ?thesis by (simp add: new_events_def)
  next
    case (rotate e m')
    from rotate(4) show ?thesis
      using weaken [OF Cons.IH] by (simp add: cont)
  next
    case (failed_sleep e)
    from failed_sleep(5) show ?thesis
      using weaken [OF Cons.IH] by (simp add: cont)
  next
    case (failed_return e r)
    then show ?thesis by (simp add: new_events_def)
  next
    case (sleep e)
    from sleep(5) show ?thesis
      using weaken [OF Cons.IH] by (simp add: cont)
  qed
qed

section \<open>A service that always reports a rate limit\<close>

lemma create_gemini_model_ok:
  assumes "\<And>key. genai_error w key = None"
    and "0 \<le> current_api_key_index s" "current_api_key_index s < int (length (API_KEYS w))"
  shows "\<exists>m'. create_gemini_model w s = Inr m'"
  using assms by (simp add: create_gemini_model_def getitem_def)

lemma rate_limitedE:
  assumes "rate_limited w out"
  obtains e where "out = Raised e" "rate_limit_error w e"
  using assms by (auto simp: rate_limited_def split: outcome.splits)

lemma rotation_pass:
  assumes limited: "rate_limited w (generate_content w (events s) m p)"
    and builds: "\<And>key. genai_error w key = None"
    and nonneg: "0 \<le> current_api_key_index s"
    and successor: "current_api_key_index s < int (length (API_KEYS w)) - 1"
  shows "\<exists>m'. attempt_body w a m p s =
           (Continue m',
            s\<lparr>current_api_key_index := current_api_key_index s + 1,
               events := events s @ [Call a m p, Rotate (current_api_key_index s + 1) m']\<rparr>)"
proof -
  from limited obtain e where e: "generate_content w (events s) m p = Raised e" "rate_limit_error w e"
    by (rule rate_limitedE)
  let ?s1 = "s\<lparr>events := events s @ [Call a m p]\<rparr>
              \<lparr>current_api_key_index := current_api_key_index s + 1\<rparr>"
  from successor nonneg builds obtain m' where "create_gemini_model w ?s1 = Inr m'"
    using create_gemini_model_ok [of w ?s1] by auto
  with successor e show ?thesis by (auto simp: attempt_body_def Let_def)
qed

lemma backoff_pass:
  assumes limited: "rate_limited w (generate_content w (events s) m p)"
    and last_key: "\<not> current_api_key_index s < int (length (API_KEYS w)) - 1"
  shows "attempt_body w a m p s =
           (if a < MAX_RETRIES - 1
            then (Continue m, s\<lparr>events := events s @ [Call a m p, Sleep (BASE_DELAY * 2 ^ a)]\<rparr>)
            else (Return keys_exhausted_message, s\<lparr>events := events s @ [Call a m p]\<rparr>))"
proof -
  from limited obtain e where e: "generate_content w (events s) m p = Raised e" "rate_limit_error w e"
    by (rule rate_limitedE)
  with last_key show ?thesis by (auto simp: attempt_body_def Let_def keys_exhausted_message_def)
qed

lemma backoff_from_2:
  assumes "\<And>tr m p. rate_limited w (generate_content w tr m p)"
    and "\<not> current_api_key_index s < int (length (API_KEYS w)) - 1"
  shows "for_attempts w [2] m p s =
           (keys_exhausted_message, s\<lparr>events := events s @ [Call 2 m p]\<rparr>)"
  using backoff_pass [where a = 2 and m = m and p = p and s = s, OF assms(1) assms(2)] by (simp add: MAX_RETRIES_def)

lemma backoff_from_1:
  assumes "\<And>tr m p. rate_limited w (generate_content w tr m p)"
    and "\<not> current_api_key_index s < int (length (API_KEYS w)) - 1"
  shows "for_attempts w [1, 2] m p s =
           (keys_exhausted_message,
            s\<lparr>events := events s @ [Call 1 m p, Sleep 2, Call 2 m p]\<rparr>)"
proof -
  let ?s1 = "s\<lparr>events := events s @ [Call 1 m p, Sleep (BASE_DELAY * 2 ^ 1)]\<rparr>"
  have "attempt_body w 1 m p s = (Continue m, ?s1)"
    using backoff_pass [where a = 1 and m = m and p = p and s = s, OF assms(1) assms(2)] by (simp add: MAX_RETRIES_def)
  moreover have "for_attempts w [2] m p ?s1 =
      (keys_exhausted_message, ?s1\<lparr>events := events ?s1 @ [Call 2 m p]\<rparr>)"
    using assms by (intro backoff_from_2) simp_all
  ultimately show ?thesis by (simp add: BASE_DELAY_def)
qed

lemma backoff_from_0:
  assumes "\<And>tr m p. rate_limited w (generate_content w tr m p)"
    and "\<not> current_api_key_index s < int (length (API_KEYS w)) - 1"
  shows "for_attempts w [0, 1, 2] m p s =
           (keys_exhausted_message,
            s\<lparr>events := events s @ [Call 0 m p, Sleep 1, Call 1 m p, Sleep 2, Call 2 m p]\<rparr>)"
proof -
  let ?s1 = "s\<lparr>events := events s @ [Call 0 m p, Sleep (BASE_DELAY * 2 ^ 0)]\<rparr>"
  have "attempt_body w 0 m p s = (Continue m, ?s1)"
    using backoff_pass [where a = 0 and m = m and p = p and s = s, OF assms(1) assms(2)] by (simp add: MAX_RETRIES_def)
  moreover have "for_attempts w [1, 2] m p ?s1 =
      (keys_exhausted_message, ?s1\<lparr>events := events ?s1 @ [Call 1 m p, Sleep 2, Call 2 m p]\<rparr>)"
    using assms by (intro backoff_from_1) simp_all
  ultimately show ?thesis by (simp add: BASE_DELAY_def)
qed

lemma attempts_0_1_2: "[0..<MAX_RETRIES] = [0, 1, 2]"
  by (simp add: MAX_RETRIES_def upt_rec)

lemma quota_run:
  assumes limited: "\<And>tr m p. rate_limited w (generate_content w tr m p)"
    and builds: "\<And>key. genai_error w key = None"
    and nonneg: "0 \<le> current_api_key_index s"
  defines "i \<equiv> current_api_key_index s"
  defines "r \<equiv> int (length (API_KEYS w)) - 1 - current_api_key_index s"
  shows "\<exists>m1 m2 m3. generate_summary_with_retry w m p s =
     (if r \<le> 0 then
        (keys_exhausted_message,
         s\<lparr>events := events s @ [Call 0 m p, Sleep 1, Call 1 m p, Sleep 2, Call 2 m p]\<rparr>)
      else if r = 1 then
        (keys_exhausted_message,
         s\<lparr>current_api_key_index := i + 1,
            events := events s @ [Call 0 m p, Rotate (i + 1) m1, Call 1 m1 p, Sleep 2, Call 2 m1 p]\<rparr>)
      else if r = 2 then
        (keys_exhausted_message,
         s\<lparr>current_api_key_index := i + 2,
            events := events s @
              [Call 0 m p, Rotate (i + 1) m1, Call 1 m1 p, Rotate (i + 2) m2, Call 2 m2 p]\<rparr>)
      else
        (attempts_used_message,
         s\<lparr>current_api_key_index := i + 3,
            events := events s @
              [Call 0 m p, Rotate (i + 1) m1, Call 1 m1 p, Rotate (i + 2) m2, Call 2 m2 p,
               Rotate (i + 3) m3]\<rparr>))"
proof (cases "r \<le> 0")
  case True
  then have "\<not> current_api_key_index s < int (length (API_KEYS w)) - 1" by (simp add: r_def)
  with limited have "for_attempts w [0, 1, 2] m p s =
      (keys_exhausted_message,
       s\<lparr>events := events s @ [Call 0 m p, Sleep 1, Call 1 m p, Sleep 2, Call 2 m p]\<rparr>)"
    by (rule backoff_from_0)
  with True show ?thesis by (simp add: generate_summary_with_retry_def attempts_0_1_2)
next
  case False
  then have succ0: "current_api_key_index s < int (length (API_KEYS w)) - 1" by (simp add: r_def)
  from rotation_pass [where a = 0 and m = m and p = p, OF limited builds nonneg succ0]
  obtain m1 where p0: "attempt_body w 0 m p s =
      (Continue m1, s\<lparr>current_api_key_index := i + 1,
                      events := events s @ [Call 0 m p, Rotate (i + 1) m1]\<rparr>)"
    by (auto simp: i_def)
  let ?s1 = "s\<lparr>current_api_key_index := i + 1,
               events := events s @ [Call 0 m p, Rotate (i + 1) m1]\<rparr>"
  have run0: "generate_summary_with_retry w m p s = for_attempts w [1, 2] m1 p ?s1"
    using p0 by (simp add: generate_summary_with_retry_def attempts_0_1_2)
  show ?thesis
  proof (cases "r = 1")
    case True
    then have "\<not> current_api_key_index ?s1 < int (length (API_KEYS w)) - 1"
      by (simp add: r_def i_def)
    with limited have "for_attempts w [1, 2] m1 p ?s1 =
        (keys_exhausted_message, ?s1\<lparr>events := events ?s1 @ [Call 1 m1 p, Sleep 2, Call 2 m1 p]\<rparr>)"
      by (rule backoff_from_1)
    with True run0 show ?thesis by auto
  next
    case r1: False
    with False have succ1: "current_api_key_index ?s1 < int (length (API_KEYS w)) - 1"
      by (simp add: r_def i_def)
    have nonneg1: "0 \<le> current_api_key_index ?s1" using nonneg by (simp add: i_def)
    from rotation_pass [where a = 1 and m = m1 and p = p, OF limited builds nonneg1 succ1]
    obtain m2 where p1: "attempt_body w 1 m1 p ?s1 =
        (Continue m2, s\<lparr>current_api_key_index := i + 2,
                        events := events s @
                          [Call 0 m p, Rotate (i + 1) m1, Call 1 m1 p, Rotate (i + 2) m2]\<rparr>)"
      by auto
    let ?s2 = "s\<lparr>current_api_key_index := i + 2,
                 events := events s @
                   [Call 0 m p, Rotate (i + 1) m1, Call 1 m1 p, Rotate (i + 2) m2]\<rparr>"
    have run1: "generate_summary_with_retry w m p s = for_attempts w [2] m2 p ?s2"
      using run0 p1 by simp
    show ?thesis
    proof (cases "r = 2")
      case True
      then have "\<not> current_api_key_index ?s2 < int (length (API_KEYS w)) - 1"
        by (simp add: r_def i_def)
      with limited have "for_attempts w [2] m2 p ?s2 =
          (keys_exhausted_message, ?s2\<lparr>events := events ?s2 @ [Call 2 m2 p]\<rparr>)"
        by (rule backoff_from_2)
      with True run1 show ?thesis by auto
    next
      case r2: False
      with False r1 have succ2: "current_api_key_index ?s2 < int (length (API_KEYS w)) - 1"
        by (simp add: r_def i_def)
      have nonneg2: "0 \<le> current_api_key_index ?s2" using nonneg by (simp add: i_def)
      from rotation_pass [where a = 2 and m = m2 and p = p, OF limited builds nonneg2 succ2]
      obtain m3 where p2: "attempt_body w 2 m2 p ?s2 =
          (Continue m3, s\<lparr>current_api_key_index := i + 3,
                          events := events s @
                            [Call 0 m p, Rotate (i + 1) m1, Call 1 m1 p, Rotate (i + 2) m2,
                             Call 2 m2 p, Rotate (i + 3) m3]\<rparr>)"
        by auto
      have "generate_summary_with_retry w m p s =
          (attempts_used_message,
           s\<lparr>current_api_key_index := i + 3,
              events := events s @
                [Call 0 m p, Rotate (i + 1) m1, Call 1 m1 p, Rotate (i + 2) m2,
                 Call 2 m2 p, Rotate (i + 3) m3]\<rparr>)"
        using run1 p2 by (simp add: attempts_used_message_def)
      with False r1 r2 show ?thesis by auto
    qed
  qed
qed

section \<open>Rotation and the counted attempts\<close>

lemma create_gemini_model_index:
  "current_api_key_index s = current_api_key_index s' \<Longrightarrow>
     create_gemini_model w s = create_gemini_model w s'"
  by (simp add: create_gemini_model_def)

lemma rotation_pass_rebuilt:
  assumes limited: "rate_limited w (generate_content w (events s) m p)"
    and successor: "current_api_key_index s < int (length (API_KEYS w)) - 1"
    and rebuilt: "create_gemini_model w (s\<lparr>current_api_key_index := current_api_key_index s + 1\<rparr>)
                    = Inr m'"
  shows "attempt_body w a m p s =
           (Continue m',
            s\<lparr>current_api_key_index := current_api_key_index s + 1,
               events := events s @ [Call a m p, Rotate (current_api_key_index s + 1) m']\<rparr>)"
proof -
  from limited obtain e where e: "generate_content w (events s) m p = Raised e" "rate_limit_error w e"
    by (rule rate_limitedE)
  let ?s1 = "s\<lparr>events := events s @ [Call a m p]\<rparr>
              \<lparr>current_api_key_index := current_api_key_index s + 1\<rparr>"
  have "create_gemini_model w ?s1 = Inr m'"
    using rebuilt create_gemini_model_index [of ?s1 "s\<lparr>current_api_key_index := current_api_key_index s + 1\<rparr>" w]
    by simp
  with successor e show ?thesis by (auto simp: attempt_body_def Let_def)
qed

lemma terminal_pass:
  assumes "\<not> rate_limited w (generate_content w (events s) m p)"
  shows "\<exists>msg. attempt_body w a m p s = (Return msg, s\<lparr>events := events s @ [Call a m p]\<rparr>)"
proof (cases "generate_content w (events s) m p")
  case (Returned r)
  then show ?thesis by (auto simp: attempt_body_def Let_def split: list.split)
next
  case (Raised e)
  with assms have "\<not> rate_limit_error w e" by (simp add: rate_limited_def)
  with Raised show ?thesis by (auto simp: attempt_body_def Let_def)
qed

lemma last_key_pass:
  assumes "\<not> current_api_key_index s < int (length (API_KEYS w)) - 1"
  shows "current_api_key_index (snd (attempt_body w a m p s)) = current_api_key_index s \<and>
         filter index_change (new_events s (snd (attempt_body w a m p s))) = []"
  using assms by (cases w a m p s rule: attempt_body_cases) (simp_all add: new_events_def)

lemma last_key_run:
  assumes "\<not> current_api_key_index s < int (length (API_KEYS w)) - 1"
  shows "current_api_key_index (snd (for_attempts w as m p s)) = current_api_key_index s \<and>
         filter index_change (new_events s (snd (for_attempts w as m p s))) = []"
proof -
  let ?P = "\<lambda>s s'. prefix (events s) (events s') \<and>
     (\<not> current_api_key_index s < int (length (API_KEYS w)) - 1 \<longrightarrow>
        current_api_key_index s' = current_api_key_index s \<and>
        filter index_change (new_events s s') = [])"
  have "?P s (snd (for_attempts w as m p s))"
  proof (rule for_attempts_relation)
    show "?P s (snd (attempt_body w a m p s))" for a m s
      using attempt_body_prefix last_key_pass by blast
    show "?P s s" for s by simp
    show "?P s s''" if "?P s s'" "?P s' s''" for s s' s''
    proof -
      from that have "new_events s s'' = new_events s s' @ new_events s' s''"
        by (simp add: new_events_trans)
      with that show ?thesis by (auto intro: prefix_order.order_trans)
    qed
  qed
  with assms show ?thesis by simp
qed

lemma quota_world_limited:
  "rate_limited (quota_world keys) (generate_content (quota_world keys) tr m p)"
  by (simp add: quota_world_def rate_limited_def rate_limit_error_def lower_def quota_error_def
      lit_def lower_latin1_def sublist_Cons_right)

lemma generate_summary_with_retry_call_indices:
  "list_all (\<lambda>e. case e of Call a m' p' \<Rightarrow> a < MAX_RETRIES | _ \<Rightarrow> True)
     (new_events s (snd (generate_summary_with_retry w m p s)))"
proof -
  have "(\<lambda>e. case e of Call a m' p' \<Rightarrow> a \<in> set [0..<MAX_RETRIES] | _ \<Rightarrow> True) =
      (\<lambda>e. case e of Call a m' p' \<Rightarrow> a < MAX_RETRIES | _ \<Rightarrow> True)"
    by (auto split: event.splits)
  with call_indices [of "[0..<MAX_RETRIES]" s w m p] show ?thesis
    by (simp add: generate_summary_with_retry_def)
qed

text \<open>
  Claim C1, as amended. When a call raises a rate-limit error, the pool has a successor
  credential and the handle is rebuilt, the pass advances the index by one, takes the rebuilt
  handle and ends in \<^verbatim>\<open>continue\<close> with no delay. Since \<^verbatim>\<open>continue\<close> belongs to the
  \<^verbatim>\<open>for\<close> loop, the retry is one of the counted attempts: in the log of every call of
  \<^verbatim>\<open>generate_summary_with_retry\<close>, a rotation stands directly after the failed call at loop
  index \<open>a\<close> and is directly followed by the retry with the rebuilt handle at loop index
  \<open>a + 1\<close>, or by nothing when \<open>a\<close> was the last index; the service is called at most
  \<open>MAX_RETRIES\<close> times, and every call is made at a loop index below \<open>MAX_RETRIES\<close>.
\<close>

theorem rotation_is_a_counted_attempt:
  "(rate_limited w (generate_content w (events s) model prompt) \<and>
    current_api_key_index s < int (length (API_KEYS w)) - 1 \<and>
    create_gemini_model w (s\<lparr>current_api_key_index := current_api_key_index s + 1\<rparr>) = Inr model'
    \<longrightarrow> attempt_body w attempt model prompt s =
          (Continue model',
           s\<lparr>current_api_key_index := current_api_key_index s + 1,
              events := events s @
                [Call attempt model prompt, Rotate (current_api_key_index s + 1) model']\<rparr>)) \<and>
   rotation_counted (new_events s (snd (generate_summary_with_retry w model prompt s))) \<and>
   length (filter is_call (new_events s (snd (generate_summary_with_retry w model prompt s))))
     \<le> MAX_RETRIES \<and>
   list_all (\<lambda>e. case e of Call a m p \<Rightarrow> a < MAX_RETRIES | _ \<Rightarrow> True)
     (new_events s (snd (generate_summary_with_retry w model prompt s)))"
  using for_attempts_from [of 0 s w model prompt]
    rotation_pass_rebuilt [of w s model prompt model' attempt]
    generate_summary_with_retry_call_indices [of s w model prompt]
  by (simp add: generate_summary_with_retry_def rotation_counted_def)

text \<open>
  The theorem of claim C1 at a pool of two credentials whose service always reports the
  quota error, on the first pass.
\<close>

theorem rotation_is_a_counted_attempt_witness:
  "attempt_body (quota_world [lit ''key1'', lit ''key2'']) 0 (GenerativeModel (lit ''key1''))
       (lit ''prompt'') initial_state =
     (Continue (GenerativeModel (lit ''key2'')),
      initial_state\<lparr>current_api_key_index := current_api_key_index initial_state + 1,
         events := events initial_state @
           [Call 0 (GenerativeModel (lit ''key1'')) (lit ''prompt''),
            Rotate (current_api_key_index initial_state + 1) (GenerativeModel (lit ''key2''))]\<rparr>) \<and>
   rotation_counted
     (new_events initial_state
        (snd (generate_summary_with_retry (quota_world [lit ''key1'', lit ''key2''])
                (GenerativeModel (lit ''key1'')) (lit ''prompt'') initial_state)))"
proof -
  let ?w = "quota_world [lit ''key1'', lit ''key2'']"
  have h: "rate_limited ?w (generate_content ?w (events initial_state)
              (GenerativeModel (lit ''key1'')) (lit ''prompt'')) \<and>
           current_api_key_index initial_state < int (length (API_KEYS ?w)) - 1 \<and>
           create_gemini_model ?w
             (initial_state\<lparr>current_api_key_index := current_api_key_index initial_state + 1\<rparr>) =
           Inr (GenerativeModel (lit ''key2''))"
    by (simp add: quota_world_limited)
       (simp add: quota_world_def initial_state_def create_gemini_model_def truthy_def getitem_def)
  show ?thesis
    using h rotation_is_a_counted_attempt
      [of ?w initial_state "GenerativeModel (lit ''key1'')" "lit ''prompt''"
          "GenerativeModel (lit ''key2'')" 0]
    by blast
qed

text \<open>
  Claim C1 as stated fails: with two credentials and a service that always reports the quota
  error, the call at loop index 0 is followed by the rotation, and the retry is made at loop
  index 1, not 0.
\<close>

theorem rotation_retried_at_same_index_counterexample:
  "new_events initial_state
     (snd (generate_summary_with_retry (quota_world [lit ''key1'', lit ''key2''])
             (GenerativeModel (lit ''key1'')) (lit ''prompt'') initial_state)) =
     [Call 0 (GenerativeModel (lit ''key1'')) (lit ''prompt''),
      Rotate 1 (GenerativeModel (lit ''key2'')),
      Call 1 (GenerativeModel (lit ''key2'')) (lit ''prompt''),
      Sleep 2,
      Call 2 (GenerativeModel (lit ''key2'')) (lit ''prompt'')] \<and>
   \<not> rotation_uncounted
       (new_events initial_state
          (snd (generate_summary_with_retry (quota_world [lit ''key1'', lit ''key2''])
                  (GenerativeModel (lit ''key1'')) (lit ''prompt'') initial_state)))"
  by code_simp

section \<open>Rotation through the pool and the final message\<close>

text \<open>
  Claim C2, as amended. Let the service report a rate-limit error on every call, let every
  rebuild of the handle succeed, and let \<open>r\<close> be the number of credentials after the active
  one. Then a call of \<^verbatim>\<open>generate_summary_with_retry\<close> rotates \<open>min r MAX_RETRIES\<close> times,
  one rotation for each counted attempt that still has a successor. With fewer than
  \<open>MAX_RETRIES\<close> successors it sleeps after each attempt but the last that found no
  successor and returns the message that all keys are exhausted, with no key remaining.
  With \<open>MAX_RETRIES\<close> successors or more it never sleeps and returns the message of line 232,
  whatever the number of keys that remain. The message that backup keys remain is not
  returned.
\<close>

theorem quota_rotation_outcomes:
  assumes "\<And>tr m p. rate_limited w (generate_content w tr m p)"
    and "\<And>key. genai_error w key = None"
    and "0 \<le> current_api_key_index s"
    and "current_api_key_index s < int (length (API_KEYS w))"
  shows "let r = int (length (API_KEYS w)) - 1 - current_api_key_index s;
             (msg, s') = generate_summary_with_retry w model prompt s
         in length (filter is_rotation (new_events s s')) = nat (min r (int MAX_RETRIES)) \<and>
            current_api_key_index s' = current_api_key_index s + min r (int MAX_RETRIES) \<and>
            remaining_keys (get_current_api_status w s') = r - min r (int MAX_RETRIES) \<and>
            msg = (if r < int MAX_RETRIES then keys_exhausted_message else attempts_used_message) \<and>
            filter is_sleep (new_events s s') =
              (if r = 0 then [Sleep 1, Sleep 2] else if r = 1 then [Sleep 2] else [])"
proof -
  define r where "r = int (length (API_KEYS w)) - 1 - current_api_key_index s"
  have r0: "0 \<le> r" using assms(4) by (simp add: r_def)
  from quota_run [OF assms(1) assms(2) assms(3), of model prompt]
  obtain m1 m2 m3 where run: "generate_summary_with_retry w model prompt s =
     (if r \<le> 0 then
        (keys_exhausted_message,
         s\<lparr>events := events s @
              [Call 0 model prompt, Sleep 1, Call 1 model prompt, Sleep 2, Call 2 model prompt]\<rparr>)
      else if r = 1 then
        (keys_exhausted_message,
         s\<lparr>current_api_key_index := current_api_key_index s + 1,
            events := events s @
              [Call 0 model prompt, Rotate (current_api_key_index s + 1) m1, Call 1 m1 prompt,
               Sleep 2, Call 2 m1 prompt]\<rparr>)
      else if r = 2 then
        (keys_exhausted_message,
         s\<lparr>current_api_key_index := current_api_key_index s + 2,
            events := events s @
              [Call 0 model prompt, Rotate (current_api_key_index s + 1) m1, Call 1 m1 prompt,
               Rotate (current_api_key_index s + 2) m2, Call 2 m2 prompt]\<rparr>)
      else
        (attempts_used_message,
         s\<lparr>current_api_key_index := current_api_key_index s + 3,
            events := events s @
              [Call 0 model prompt, Rotate (current_api_key_index s + 1) m1, Call 1 m1 prompt,
               Rotate (current_api_key_index s + 2) m2, Call 2 m2 prompt,
               Rotate (current_api_key_index s + 3) m3]\<rparr>))"
    unfolding r_def by blast
  consider "r = 0" | "r = 1" | "r = 2" | "3 \<le> r" using r0 by linarith
  then have "case generate_summary_with_retry w model prompt s of (msg, s') \<Rightarrow>
      length (filter is_rotation (new_events s s')) = nat (min r (int MAX_RETRIES)) \<and>
      current_api_key_index s' = current_api_key_index s + min r (int MAX_RETRIES) \<and>
      remaining_keys (get_current_api_status w s') = r - min r (int MAX_RETRIES) \<and>
      msg = (if r < int MAX_RETRIES then keys_exhausted_message else attempts_used_message) \<and>
      filter is_sleep (new_events s s') =
        (if r = 0 then [Sleep 1, Sleep 2] else if r = 1 then [Sleep 2] else [])"
  proof cases
    case 1
    then show ?thesis unfolding run
      by (simp add: new_events_def MAX_RETRIES_def get_current_api_status_def) (simp add: r_def)
  next
    case 2
    then show ?thesis unfolding run
      by (simp add: new_events_def MAX_RETRIES_def get_current_api_status_def) (simp add: r_def)
  next
    case 3
    then show ?thesis unfolding run
      by (simp add: new_events_def MAX_RETRIES_def get_current_api_status_def) (simp add: r_def)
  next
    case 4
    then show ?thesis unfolding run
      by (simp add: new_events_def MAX_RETRIES_def get_current_api_status_def) (simp add: r_def)
  qed
  then show ?thesis unfolding Let_def r_def .
qed

text \<open>
  The theorem of claim C2 at a pool of two credentials, from the initial state: one
  rotation, one delay of two time units, and the message that all keys are exhausted.
\<close>

theorem quota_rotation_outcomes_witness:
  "(let r = int (length (API_KEYS (quota_world [lit ''key1'', lit ''key2'']))) - 1
              - current_api_key_index initial_state;
        (msg, s') = generate_summary_with_retry (quota_world [lit ''key1'', lit ''key2''])
                      (GenerativeModel (lit ''key1'')) (lit ''prompt'') initial_state
    in length (filter is_rotation (new_events initial_state s')) = nat (min r (int MAX_RETRIES)) \<and>
       current_api_key_index s' = current_api_key_index initial_state + min r (int MAX_RETRIES) \<and>
       remaining_keys (get_current_api_status (quota_world [lit ''key1'', lit ''key2'']) s')
         = r - min r (int MAX_RETRIES) \<and>
       msg = (if r < int MAX_RETRIES then keys_exhausted_message else attempts_used_message) \<and>
       filter is_sleep (new_events initial_state s') =
         (if r = 0 then [Sleep 1, Sleep 2] else if r = 1 then [Sleep 2] else [])) \<and>
   int (length (API_KEYS (quota_world [lit ''key1'', lit ''key2'']))) - 1
     - current_api_key_index initial_state = 1"
proof -
  let ?w = "quota_world [lit ''key1'', lit ''key2'']"
  have h1: "\<And>tr m p. rate_limited ?w (generate_content ?w tr m p)"
    by (rule quota_world_limited)
  have h2: "\<And>key. genai_error ?w key = None" by (simp add: quota_world_def)
  have h3: "0 \<le> current_api_key_index initial_state" by (simp add: initial_state_def)
  have h4: "current_api_key_index initial_state < int (length (API_KEYS ?w))"
    by (simp add: initial_state_def quota_world_def)
  have "int (length (API_KEYS ?w)) - 1 - current_api_key_index initial_state = 1"
    by (simp add: initial_state_def quota_world_def)
  with quota_rotation_outcomes [OF h1 h2 h3 h4, of "GenerativeModel (lit ''key1'')" "lit ''prompt''"]
  show ?thesis by blast
qed

text \<open>
  Claim C2 as stated fails. With four credentials and with five, from the initial state, the
  call rotates three times and returns the message of line 232 both times: with four
  credentials no key remains and the message is not the one that all keys are exhausted; with
  five credentials one key remains, the message is not the one that backup keys remain, only
  three rotations (not four) were made, and no delay was taken.
\<close>

theorem quota_final_message_counterexample:
  "generate_summary_with_retry
       (quota_world [lit ''key1'', lit ''key2'', lit ''key3'', lit ''key4''])
       (GenerativeModel (lit ''key1'')) (lit ''prompt'') initial_state =
     (attempts_used_message,
      \<lparr>current_api_key_index = 3,
       events = [Call 0 (GenerativeModel (lit ''key1'')) (lit ''prompt''),
                 Rotate 1 (GenerativeModel (lit ''key2'')),
                 Call 1 (GenerativeModel (lit ''key2'')) (lit ''prompt''),
                 Rotate 2 (GenerativeModel (lit ''key3'')),
                 Call 2 (GenerativeModel (lit ''key3'')) (lit ''prompt''),
                 Rotate 3 (GenerativeModel (lit ''key4''))]\<rparr>) \<and>
   remaining_keys (get_current_api_status
       (quota_world [lit ''key1'', lit ''key2'', lit ''key3'', lit ''key4''])
       \<lparr>current_api_key_index = 3, events = []\<rparr>) = 0 \<and>
   attempts_used_message \<noteq> keys_exhausted_message \<and>
   generate_summary_with_retry
       (quota_world [lit ''key1'', lit ''key2'', lit ''key3'', lit ''key4'', lit ''key5''])
       (GenerativeModel (lit ''key1'')) (lit ''prompt'') initial_state =
     (attempts_used_message,
      \<lparr>current_api_key_index = 3,
       events = [Call 0 (GenerativeModel (lit ''key1'')) (lit ''prompt''),
                 Rotate 1 (GenerativeModel (lit ''key2'')),
                 Call 1 (GenerativeModel (lit ''key2'')) (lit ''prompt''),
                 Rotate 2 (GenerativeModel (lit ''key3'')),
                 Call 2 (GenerativeModel (lit ''key3'')) (lit ''prompt''),
                 Rotate 3 (GenerativeModel (lit ''key4''))]\<rparr>) \<and>
   remaining_keys (get_current_api_status
       (quota_world [lit ''key1'', lit ''key2'', lit ''key3'', lit ''key4'', lit ''key5''])
       \<lparr>current_api_key_index = 3, events = []\<rparr>) = 1 \<and>
   attempts_used_message \<noteq> backup_keys_message 1"
  by code_simp

text \<open>
  The message that backup keys remain is returned when the rebuild of the handle fails on
  the last attempt: with five credentials and a rebuild that always raises, the index is
  advanced three times, every call is made with the first handle, and one key remains.
\<close>

lemma backup_keys_message_after_failed_rebuild:
  "generate_summary_with_retry
     (broken_rebuild_world [lit ''key1'', lit ''key2'', lit ''key3'', lit ''key4'', lit ''key5''])
     (GenerativeModel (lit ''key1'')) (lit ''prompt'') initial_state =
   (backup_keys_message 1,
    \<lparr>current_api_key_index = 3,
     events = [Call 0 (GenerativeModel (lit ''key1'')) (lit ''prompt''), RebuildFailed 1, Sleep 1,
               Call 1 (GenerativeModel (lit ''key1'')) (lit ''prompt''), RebuildFailed 2, Sleep 2,
               Call 2 (GenerativeModel (lit ''key1'')) (lit ''prompt''), RebuildFailed 3]\<rparr>)"
  by code_simp

section \<open>The active index\<close>

lemma load_API_KEYS_nonempty: "load_API_KEYS getenv \<noteq> []"
  by (simp add: load_API_KEYS_def Let_def)

lemma generate_summary_with_retry_index:
  "current_api_key_index (snd (generate_summary_with_retry w m p s)) =
     current_api_key_index s +
     int (length (filter index_change (new_events s (snd (generate_summary_with_retry w m p s)))))"
  unfolding generate_summary_with_retry_def by (rule for_attempts_index)

lemma last_key_exhausted:
  assumes "\<And>tr m p. rate_limited w (generate_content w tr m p)"
    and "\<not> current_api_key_index s < int (length (API_KEYS w)) - 1"
  shows "fst (generate_summary_with_retry w m p s) = keys_exhausted_message"
  using backoff_from_0 [OF assms, of m p]
  by (simp add: generate_summary_with_retry_def attempts_0_1_2)

text \<open>
  Claim C3. The module starts with the index 0 and a non-empty credential list. A call of
  \<^verbatim>\<open>generate_summary_with_retry\<close> keeps the index within \<open>0 \<le> index < len(API_KEYS)\<close>,
  never decreases it, and changes it by exactly the number of times line 208 ran, so only in
  the rotation step. With the index at the last position the rotation step is never
  entered: two successive calls, whatever the service does, add no rotation to the log and
  leave the index where it is, and when the service reports a rate limit on every call both
  return the message that all keys are exhausted. The model is sequential: one call runs to
  its end before the next one starts.
\<close>

theorem pool_index_invariant:
  "(0 \<le> current_api_key_index initial_state \<and>
    current_api_key_index initial_state < int (length (load_API_KEYS getenv))) \<and>
   (let s' = snd (generate_summary_with_retry w model prompt s);
        s'' = snd (generate_summary_with_retry w model2 prompt2 s');
        n = int (length (API_KEYS w))
    in (0 \<le> current_api_key_index s \<and> current_api_key_index s < n \<longrightarrow>
          0 \<le> current_api_key_index s' \<and> current_api_key_index s' < n) \<and>
       current_api_key_index s \<le> current_api_key_index s' \<and>
       current_api_key_index s' =
         current_api_key_index s + int (length (filter index_change (new_events s s'))) \<and>
       (current_api_key_index s = n - 1 \<longrightarrow>
          current_api_key_index s' = current_api_key_index s \<and>
          current_api_key_index s'' = current_api_key_index s \<and>
          filter index_change (new_events s s') = [] \<and>
          filter index_change (new_events s' s'') = []) \<and>
       (current_api_key_index s = n - 1 \<and>
        (\<forall>tr m p. rate_limited w (generate_content w tr m p)) \<longrightarrow>
          fst (generate_summary_with_retry w model prompt s) = keys_exhausted_message \<and>
          fst (generate_summary_with_retry w model2 prompt2 s') = keys_exhausted_message))"
proof -
  define s' where "s' = snd (generate_summary_with_retry w model prompt s)"
  define s'' where "s'' = snd (generate_summary_with_retry w model2 prompt2 s')"
  define n where "n = int (length (API_KEYS w))"
  have init: "0 \<le> current_api_key_index initial_state \<and>
      current_api_key_index initial_state < int (length (load_API_KEYS getenv))"
    using load_API_KEYS_nonempty [of getenv] by (simp add: initial_state_def)
  have mono: "current_api_key_index s \<le> current_api_key_index s'"
    unfolding s'_def generate_summary_with_retry_def by (rule for_attempts_mono)
  have bound: "current_api_key_index s' \<le> max (current_api_key_index s) (n - 1)"
    unfolding s'_def n_def generate_summary_with_retry_def by (rule for_attempts_bound)
  have inv: "0 \<le> current_api_key_index s \<and> current_api_key_index s < n \<longrightarrow>
      0 \<le> current_api_key_index s' \<and> current_api_key_index s' < n"
    using mono bound by auto
  have count: "current_api_key_index s' =
      current_api_key_index s + int (length (filter index_change (new_events s s')))"
    unfolding s'_def by (rule generate_summary_with_retry_index)
  have last1: "current_api_key_index s' = current_api_key_index s \<and>
      filter index_change (new_events s s') = []" if "current_api_key_index s = n - 1"
    unfolding s'_def generate_summary_with_retry_def
    using that by (intro last_key_run) (simp add: n_def)
  have last2: "current_api_key_index s'' = current_api_key_index s' \<and>
      filter index_change (new_events s' s'') = []" if "current_api_key_index s = n - 1"
    unfolding s''_def generate_summary_with_retry_def
    using that last1 by (intro last_key_run) (simp add: n_def)
  have exh: "fst (generate_summary_with_retry w model prompt s) = keys_exhausted_message \<and>
      fst (generate_summary_with_retry w model2 prompt2 s') = keys_exhausted_message"
    if "current_api_key_index s = n - 1" "\<forall>tr m p. rate_limited w (generate_content w tr m p)"
  proof -
    have "\<not> current_api_key_index s < int (length (API_KEYS w)) - 1"
      using that(1) by (simp add: n_def)
    moreover have "\<not> current_api_key_index s' < int (length (API_KEYS w)) - 1"
      using that(1) last1 by (simp add: n_def)
    ultimately show ?thesis using that(2) by (simp add: last_key_exhausted)
  qed
  from init inv mono count last1 last2 exh show ?thesis
    unfolding Let_def s'_def [symmetric] s''_def [symmetric] n_def [symmetric] by simp
qed

text \<open>
  The theorem of claim C3 at a pool of one credential whose service always reports the quota
  error, called twice from the initial state and with an environment that sets no variable.
\<close>

theorem pool_index_invariant_witness:
  "current_api_key_index initial_state =
     int (length (API_KEYS (quota_world [lit ''key1'']))) - 1 \<and>
   0 \<le> current_api_key_index initial_state \<and>
   current_api_key_index initial_state < int (length (API_KEYS (quota_world [lit ''key1'']))) \<and>
   (\<forall>tr m p. rate_limited (quota_world [lit ''key1''])
                (generate_content (quota_world [lit ''key1'']) tr m p)) \<and>
   current_api_key_index initial_state < int (length (load_API_KEYS (\<lambda>name. None))) \<and>
   current_api_key_index
     (snd (generate_summary_with_retry (quota_world [lit ''key1''])
             (GenerativeModel (lit ''key1'')) (lit ''prompt'') initial_state)) = 0 \<and>
   current_api_key_index
     (snd (generate_summary_with_retry (quota_world [lit ''key1''])
             (GenerativeModel (lit ''key1'')) (lit ''again'')
             (snd (generate_summary_with_retry (quota_world [lit ''key1''])
                     (GenerativeModel (lit ''key1'')) (lit ''prompt'') initial_state)))) = 0 \<and>
   fst (generate_summary_with_retry (quota_world [lit ''key1''])
          (GenerativeModel (lit ''key1'')) (lit ''prompt'') initial_state) = keys_exhausted_message \<and>
   fst (generate_summary_with_retry (quota_world [lit ''key1''])
          (GenerativeModel (lit ''key1'')) (lit ''again'')
          (snd (generate_summary_with_retry (quota_world [lit ''key1''])
                  (GenerativeModel (lit ''key1'')) (lit ''prompt'') initial_state)))
     = keys_exhausted_message"
proof -
  let ?w = "quota_world [lit ''key1'']"
  have h1: "current_api_key_index initial_state = int (length (API_KEYS ?w)) - 1"
    by (simp add: initial_state_def quota_world_def)
  have h2: "0 \<le> current_api_key_index initial_state \<and>
      current_api_key_index initial_state < int (length (API_KEYS ?w))"
    by (simp add: initial_state_def quota_world_def)
  have h3: "\<forall>tr m p. rate_limited ?w (generate_content ?w tr m p)"
    by (simp add: quota_world_limited)
  have h4: "current_api_key_index initial_state = 0" by (simp add: initial_state_def)
  show ?thesis
    using h1 h2 h3 h4
      pool_index_invariant [of "\<lambda>name. None" ?w "GenerativeModel (lit ''key1'')" "lit ''prompt''"
        initial_state "GenerativeModel (lit ''key1'')" "lit ''again''", unfolded Let_def]
    by simp
qed

section \<open>Terminal results\<close>

text \<open>
  The safety branch of lines 193-196. If the first call returns a response whose
  \<^verbatim>\<open>text\<close> can be read and is \<^verbatim>\<open>None\<close> or empty, and whose first candidate has the finish
  reason \<^verbatim>\<open>SAFETY\<close>, then \<^verbatim>\<open>generate_summary_with_retry\<close> returns exactly
  \<^verbatim>\<open>Error: Content blocked by safety filter.\<close>, and the only thing it did is that one call
  at loop index 0.
\<close>

lemma safety_branch_returns_without_retry:
  assumes "generate_content w (events s) model prompt = Returned r"
    and "\<not> truthy (response_text r)"
    and "candidates r = c # cs"
    and "finish_reason c = Some (lit ''SAFETY'')"
  shows "generate_summary_with_retry w model prompt s =
           (lit ''Error: Content blocked by safety filter.'',
            s\<lparr>events := events s @ [Call 0 model prompt]\<rparr>) \<and>
         length (filter is_call
           (new_events s (snd (generate_summary_with_retry w model prompt s)))) = 1"
proof -
  have "attempt_body w 0 model prompt s =
      (Return (lit ''Error: Content blocked by safety filter.''),
       s\<lparr>events := events s @ [Call 0 model prompt]\<rparr>)"
    using assms by (simp add: attempt_body_def Let_def)
  then have "generate_summary_with_retry w model prompt s =
      (lit ''Error: Content blocked by safety filter.'',
       s\<lparr>events := events s @ [Call 0 model prompt]\<rparr>)"
    by (simp add: generate_summary_with_retry_def attempts_0_1_2)
  then show ?thesis by (simp add: new_events_def)
qed

text \<open>
  The same at a service that answers with the text \<^verbatim>\<open>None\<close> and one candidate blocked for
  safety.
\<close>

lemma safety_branch_at_readable_text:
  "generate_summary_with_retry
       (answering_world [lit ''key1'', lit ''key2'']
          (Response None [Candidate (Some (lit ''SAFETY''))]))
       (GenerativeModel (lit ''key1'')) (lit ''prompt'') initial_state =
     (lit ''Error: Content blocked by safety filter.'',
      initial_state\<lparr>events := events initial_state @
         [Call 0 (GenerativeModel (lit ''key1'')) (lit ''prompt'')]\<rparr>)"
proof -
  let ?r = "Response None [Candidate (Some (lit ''SAFETY''))]"
  let ?w = "answering_world [lit ''key1'', lit ''key2''] ?r"
  have h1: "generate_content ?w (events initial_state) (GenerativeModel (lit ''key1''))
              (lit ''prompt'') = Returned ?r"
    by (simp add: answering_world_def)
  have h2: "\<not> truthy (response_text ?r)" by (simp add: truthy_def)
  have h3: "candidates ?r = Candidate (Some (lit ''SAFETY'')) # []" by simp
  have h4: "finish_reason (Candidate (Some (lit ''SAFETY''))) = Some (lit ''SAFETY'')" by simp
  show ?thesis using safety_branch_returns_without_retry [OF h1 h2 h3 h4] by blast
qed

lemma raised_bad_key_message:
  assumes "generate_content w (events s) model prompt = Raised e"
    and "\<not> rate_limit_error w e" and "bad_key_error w e"
  shows "generate_summary_with_retry w model prompt s =
           (lit ''Error: Invalid or expired API key. Please check your API key configuration.'',
            s\<lparr>events := events s @ [Call 0 model prompt]\<rparr>)"
proof -
  have "attempt_body w 0 model prompt s =
      (Return (lit ''Error: Invalid or expired API key. Please check your API key configuration.''),
       s\<lparr>events := events s @ [Call 0 model prompt]\<rparr>)"
    using assms by (simp add: attempt_body_def Let_def)
  then show ?thesis by (simp add: generate_summary_with_retry_def attempts_0_1_2)
qed

text \<open>
  Claim C7 fails on the code. The provider library answers a generation that was blocked
  for safety with a response that has no parts and a first candidate with the finish reason
  \<^verbatim>\<open>SAFETY\<close>; reading \<^verbatim>\<open>response.text\<close> of it (line 190) raises \<^verbatim>\<open>ValueError\<close> with a message
  that starts with \<^verbatim>\<open>Invalid operation\<close>. The read is inside the \<^verbatim>\<open>try\<close> block, so the
  branch of lines 193-196 is never reached: the handler finds \<^verbatim>\<open>invalid\<close> in the lowered
  message and \<^verbatim>\<open>generate_summary_with_retry\<close> returns the message about an invalid or
  expired API key, not \<^verbatim>\<open>Error: Content blocked by safety filter.\<close> The service is called
  once, as the claim says.
\<close>

theorem safety_block_reported_as_bad_key:
  "generate_summary_with_retry (safety_blocked_world [lit ''key1'', lit ''key2''])
       (GenerativeModel (lit ''key1'')) (lit ''prompt'') initial_state =
     (lit ''Error: Invalid or expired API key. Please check your API key configuration.'',
      \<lparr>current_api_key_index = 0,
       events = [Call 0 (GenerativeModel (lit ''key1'')) (lit ''prompt'')]\<rparr>) \<and>
   lit ''Error: Invalid or expired API key. Please check your API key configuration.'' \<noteq>
     lit ''Error: Content blocked by safety filter.''"
  by code_simp

text \<open>
  Claim C9. A pass whose call is not answered by a rate-limit error (a text, a safety block,
  an empty response, no candidates, a bad-credential error or any other error) returns with
  the state as it was but for the logged call, at whatever loop index and after whatever
  history; so a call of \<^verbatim>\<open>generate_summary_with_retry\<close> whose first answer is of this kind
  leaves the index unchanged. In general the index after a call is the index before it
  unless line 208 ran in between.
\<close>

theorem index_changed_by_rotation_only:
  "(\<not> rate_limited w (generate_content w (events s) model prompt) \<longrightarrow>
      (\<exists>msg. attempt_body w attempt model prompt s =
         (Return msg, s\<lparr>events := events s @ [Call attempt model prompt]\<rparr>)) \<and>
      current_api_key_index (snd (generate_summary_with_retry w model prompt s)) =
        current_api_key_index s) \<and>
   (filter index_change (new_events s (snd (generate_summary_with_retry w model prompt s))) = []
      \<longrightarrow> current_api_key_index (snd (generate_summary_with_retry w model prompt s)) =
          current_api_key_index s)"
proof -
  have "current_api_key_index (snd (generate_summary_with_retry w model prompt s)) =
      current_api_key_index s"
    if "\<not> rate_limited w (generate_content w (events s) model prompt)"
  proof -
    from terminal_pass [OF that, of 0] obtain msg where
      "attempt_body w 0 model prompt s = (Return msg, s\<lparr>events := events s @ [Call 0 model prompt]\<rparr>)"
      by blast
    then show ?thesis by (simp add: generate_summary_with_retry_def attempts_0_1_2)
  qed
  moreover have "current_api_key_index (snd (generate_summary_with_retry w model prompt s)) =
      current_api_key_index s"
    if "filter index_change
          (new_events s (snd (generate_summary_with_retry w model prompt s))) = []"
    using generate_summary_with_retry_index [of w model prompt s] that by simp
  ultimately show ?thesis using terminal_pass [of w s model prompt attempt] by blast
qed

text \<open>
  The theorem of claim C9 at a service that answers with a text, with the index at 1 of 3.
\<close>

theorem index_changed_by_rotation_only_witness:
  "\<not> rate_limited (answering_world [lit ''key1'', lit ''key2'', lit ''key3'']
                     (Response (Some (lit ''summary'')) []))
       (generate_content (answering_world [lit ''key1'', lit ''key2'', lit ''key3'']
                            (Response (Some (lit ''summary'')) []))
          [] (GenerativeModel (lit ''key2'')) (lit ''prompt'')) \<and>
   current_api_key_index
     (snd (generate_summary_with_retry
             (answering_world [lit ''key1'', lit ''key2'', lit ''key3'']
                (Response (Some (lit ''summary'')) []))
             (GenerativeModel (lit ''key2'')) (lit ''prompt'')
             \<lparr>current_api_key_index = 1, events = []\<rparr>)) = 1"
proof -
  let ?w = "answering_world [lit ''key1'', lit ''key2'', lit ''key3'']
              (Response (Some (lit ''summary'')) [])"
  let ?s = "\<lparr>current_api_key_index = 1, events = []\<rparr>"
  have h: "\<not> rate_limited ?w (generate_content ?w (events ?s) (GenerativeModel (lit ''key2''))
             (lit ''prompt''))"
    by (simp add: answering_world_def rate_limited_def)
  show ?thesis
    using h index_changed_by_rotation_only
      [of ?w ?s "GenerativeModel (lit ''key2'')" "lit ''prompt''" 0]
    by simp
qed

section \<open>The prompt and the empty transcript\<close>

lemma budget_values:
  "max_transcript_length (lit ''brief'') = 6000 \<and>
   max_transcript_length (lit ''medium'') = 8000 \<and>
   max_transcript_length (lit ''detailed'') = 12000"
  by (simp add: max_transcript_length_def lit_def)

lemma budget_at_least: "6000 \<le> max_transcript_length detail_level"
  by (simp add: max_transcript_length_def)

text \<open>
  Claim C4. The budget is 6000 for \<^verbatim>\<open>brief\<close>, 12000 for \<^verbatim>\<open>detailed\<close> and 8000 for
  \<^verbatim>\<open>medium\<close> and every other value. For a transcript longer than the budget of the chosen
  detail level, the prompt that \<^verbatim>\<open>summarize_transcript_advanced\<close> sends is the preamble, then
  the first budget-many characters of the transcript followed by \<^verbatim>\<open>...\<close>, then the rest of
  the template; this segment has the length of the budget plus the length of the marker and
  ends with the marker.
\<close>

theorem truncated_transcript_segment:
  assumes "length transcript > max_transcript_length detail_level"
  shows "summarize_transcript_advanced w (Some transcript) model summary_style detail_level
             translate_to s =
           generate_summary_with_retry w model
             (lit ''Summarize this YouTube video transcript in the requested format:\<newline>\<newline>'' @
              (take (max_transcript_length detail_level) transcript @ lit ''...'') @
              lit ''\<newline>\<newline>'' @ style_instruction summary_style @
              lit ''\<newline>\<newline>Instructions: '' @ detail_instruction detail_level @
              translation_instruction translate_to @
              lit ''\<newline>\<newline>Summary:'') s \<and>
         length (take (max_transcript_length detail_level) transcript @ lit ''...'') =
           max_transcript_length detail_level + length (lit ''...'') \<and>
         suffix (lit ''...'') (take (max_transcript_length detail_level) transcript @ lit ''...'') \<and>
         max_transcript_length detail_level =
           (if detail_level = lit ''brief'' then 6000
            else if detail_level = lit ''detailed'' then 12000 else 8000)"
proof -
  from assms have "transcript \<noteq> []" by auto
  then have "truthy (Some transcript)" by (simp add: truthy_def)
  then have "summarize_transcript_advanced w (Some transcript) model summary_style detail_level
        translate_to s =
      generate_summary_with_retry w model
        (advanced_prompt transcript summary_style detail_level translate_to) s"
    by (simp add: summarize_transcript_advanced_def)
  moreover have "truncate_transcript (max_transcript_length detail_level) transcript =
      take (max_transcript_length detail_level) transcript @ lit ''...''"
    using assms by (simp add: truncate_transcript_def)
  moreover have "length (take (max_transcript_length detail_level) transcript) =
      max_transcript_length detail_level"
    using assms by simp
  ultimately show ?thesis
    by (simp add: advanced_prompt_def max_transcript_length_def suffix_def)
qed

text \<open>
  The theorem of claim C4 at a transcript of 6001 letters \<^verbatim>\<open>a\<close> and the detail level
  \<^verbatim>\<open>brief\<close>: the segment has 6003 characters.
\<close>

theorem truncated_transcript_segment_witness:
  "length (replicate 6001 (of_char CHR ''a'') :: str) > max_transcript_length (lit ''brief'') \<and>
   length (take (max_transcript_length (lit ''brief'')) (replicate 6001 (of_char CHR ''a'')) @
           lit ''...'') = max_transcript_length (lit ''brief'') + length (lit ''...'') \<and>
   suffix (lit ''...'')
     (take (max_transcript_length (lit ''brief'')) (replicate 6001 (of_char CHR ''a'')) @
      lit ''...'') \<and>
   max_transcript_length (lit ''brief'') + length (lit ''...'') = 6003"
proof -
  have h: "length (replicate 6001 (of_char CHR ''a'') :: str) > max_transcript_length (lit ''brief'')"
    by (simp add: budget_values)
  have n: "max_transcript_length (lit ''brief'') + length (lit ''...'') = 6003"
    by (simp add: budget_values) (simp add: lit_def)
  show ?thesis
    using h n truncated_transcript_segment [OF h] by blast
qed

text \<open>
  Claim C5. For the empty transcript both entry points return exactly
  \<^verbatim>\<open>Error: Transcript is empty.\<close>, whatever the style, the detail level and the target
  language are, and the state, with its log of calls, is the one they were given: no prompt
  is built and the service is not called.
\<close>

theorem empty_transcript_error:
  "summarize_transcript_advanced w (Some []) model summary_style detail_level translate_to s =
     (lit ''Error: Transcript is empty.'', s) \<and>
   summarize_transcript w (Some []) model s = (lit ''Error: Transcript is empty.'', s)"
  by (simp add: summarize_transcript_advanced_def summarize_transcript_def truthy_def)

text \<open>
  Claim C8. For a non-empty transcript the entry point without options sends a prompt that
  has the same shape as the prompt of the advanced entry point for the style \<^verbatim>\<open>default\<close>
  and the detail level \<^verbatim>\<open>medium\<close>: a preamble; the transcript, whole when it has at most
  8000 characters and otherwise its first 8000 characters followed by \<^verbatim>\<open>...\<close>; the same
  four-point outline; and the closing cue \<^verbatim>\<open>Summary:\<close> at the end. The two prompts are not
  the same text: the preambles differ in one word, and the advanced prompt has an
  \<^verbatim>\<open>Instructions\<close> line between the outline and the cue.
\<close>

theorem simple_prompt_matches_default_outline:
  assumes "transcript \<noteq> []"
  shows "summarize_transcript w (Some transcript) model s =
           generate_summary_with_retry w model
             (lit ''Summarize this YouTube video transcript in an organized format:\<newline>\<newline>'' @
              (if 8000 < length transcript then take 8000 transcript @ lit ''...''
               else transcript) @
              lit ''\<newline>\<newline>'' @ four_point_outline @ lit ''\<newline>\<newline>Summary:'') s \<and>
         summarize_transcript_advanced w (Some transcript) model (lit ''default'') (lit ''medium'')
             (lit ''none'') s =
           generate_summary_with_retry w model
             (lit ''Summarize this YouTube video transcript in the requested format:\<newline>\<newline>'' @
              (if 8000 < length transcript then take 8000 transcript @ lit ''...''
               else transcript) @
              lit ''\<newline>\<newline>'' @ four_point_outline @
              lit ''\<newline>\<newline>Instructions: Provide a balanced level of detail with key information.'' @
              lit ''\<newline>\<newline>Summary:'') s \<and>
         truncate_transcript 8000 transcript =
           (if 8000 < length transcript then take 8000 transcript @ lit ''...'' else transcript) \<and>
         style_instruction (lit ''default'') = four_point_outline \<and>
         max_transcript_length (lit ''medium'') = 8000 \<and>
         sublist (lit ''1. Main Topic'') four_point_outline \<and>
         sublist (lit ''2. Key Points'') four_point_outline \<and>
         sublist (lit ''3. Important Details'') four_point_outline \<and>
         sublist (lit ''4. Conclusions'') four_point_outline"
proof -
  from assms have t: "truthy (Some transcript)" by (simp add: truthy_def)
  have cut: "truncate_transcript 8000 transcript =
      (if 8000 < length transcript then take 8000 transcript @ lit ''...'' else transcript)"
    by (simp add: truncate_transcript_def)
  have style: "style_instruction (lit ''default'') = four_point_outline"
    by (simp add: style_instruction_def style_prompts_def dict_get_def four_point_outline_def)
  have detail: "detail_instruction (lit ''medium'') =
      lit ''Provide a balanced level of detail with key information.''"
    by (simp add: detail_instruction_def detail_instructions_def dict_get_def lit_def)
  have none: "translation_instruction (lit ''none'') = []"
    by (simp add: translation_instruction_def)
  have simple: "simple_prompt transcript =
      lit ''Summarize this YouTube video transcript in an organized format:\<newline>\<newline>'' @
      truncate_transcript 8000 transcript @ lit ''\<newline>\<newline>'' @ four_point_outline @
      lit ''\<newline>\<newline>Summary:''"
    by (simp add: simple_prompt_def four_point_outline_def lit_def)
  have advanced: "advanced_prompt transcript (lit ''default'') (lit ''medium'') (lit ''none'') =
      lit ''Summarize this YouTube video transcript in the requested format:\<newline>\<newline>'' @
      truncate_transcript 8000 transcript @ lit ''\<newline>\<newline>'' @ four_point_outline @
      lit ''\<newline>\<newline>Instructions: Provide a balanced level of detail with key information.'' @
      lit ''\<newline>\<newline>Summary:''"
    unfolding advanced_prompt_def style detail none
    by (simp add: budget_values) (simp add: lit_def)
  have items: "sublist (lit ''1. Main Topic'') four_point_outline \<and>
      sublist (lit ''2. Key Points'') four_point_outline \<and>
      sublist (lit ''3. Important Details'') four_point_outline \<and>
      sublist (lit ''4. Conclusions'') four_point_outline"
    by code_simp
  from t have "summarize_transcript w (Some transcript) model s =
      generate_summary_with_retry w model (simple_prompt transcript) s"
    by (simp add: summarize_transcript_def)
  moreover from t have "summarize_transcript_advanced w (Some transcript) model (lit ''default'')
        (lit ''medium'') (lit ''none'') s =
      generate_summary_with_retry w model
        (advanced_prompt transcript (lit ''default'') (lit ''medium'') (lit ''none'')) s"
    by (simp add: summarize_transcript_advanced_def)
  ultimately show ?thesis
    unfolding simple advanced cut [symmetric] using style items by (simp add: budget_values)
qed

text \<open>
  The theorem of claim C8 at a transcript of 8001 letters \<^verbatim>\<open>a\<close>, which is cut to 8000
  letters and the marker by both entry points, and at the transcript \<^verbatim>\<open>hello world\<close>,
  which is sent whole.
\<close>

theorem simple_prompt_matches_default_outline_witness:
  "(replicate 8001 (of_char CHR ''a'') :: str) \<noteq> [] \<and>
   summarize_transcript (answering_world [lit ''key1''] (Response (Some (lit ''summary'')) []))
       (Some (replicate 8001 (of_char CHR ''a''))) (GenerativeModel (lit ''key1'')) initial_state =
     generate_summary_with_retry
       (answering_world [lit ''key1''] (Response (Some (lit ''summary'')) []))
       (GenerativeModel (lit ''key1''))
       (lit ''Summarize this YouTube video transcript in an organized format:\<newline>\<newline>'' @
        (replicate 8000 (of_char CHR ''a'') @ lit ''...'') @
        lit ''\<newline>\<newline>'' @ four_point_outline @ lit ''\<newline>\<newline>Summary:'')
       initial_state \<and>
   summarize_transcript_advanced
       (answering_world [lit ''key1''] (Response (Some (lit ''summary'')) []))
       (Some (replicate 8001 (of_char CHR ''a''))) (GenerativeModel (lit ''key1''))
       (lit ''default'') (lit ''medium'') (lit ''none'') initial_state =
     generate_summary_with_retry
       (answering_world [lit ''key1''] (Response (Some (lit ''summary'')) []))
       (GenerativeModel (lit ''key1''))
       (lit ''Summarize this YouTube video transcript in the requested format:\<newline>\<newline>'' @
        (replicate 8000 (of_char CHR ''a'') @ lit ''...'') @
        lit ''\<newline>\<newline>'' @ four_point_outline @
        lit ''\<newline>\<newline>Instructions: Provide a balanced level of detail with key information.'' @
        lit ''\<newline>\<newline>Summary:'')
       initial_state \<and>
   lit ''hello world'' \<noteq> [] \<and>
   summarize_transcript (answering_world [lit ''key1''] (Response (Some (lit ''summary'')) []))
       (Some (lit ''hello world'')) (GenerativeModel (lit ''key1'')) initial_state =
     generate_summary_with_retry
       (answering_world [lit ''key1''] (Response (Some (lit ''summary'')) []))
       (GenerativeModel (lit ''key1''))
       (lit ''Summarize this YouTube video transcript in an organized format:\<newline>\<newline>'' @
        lit ''hello world'' @ lit ''\<newline>\<newline>'' @ four_point_outline @ lit ''\<newline>\<newline>Summary:'')
       initial_state"
proof -
  let ?w = "answering_world [lit ''key1''] (Response (Some (lit ''summary'')) [])"
  let ?long = "replicate 8001 (of_char CHR ''a'') :: str"
  have long: "?long \<noteq> []" by simp
  have short: "lit ''hello world'' \<noteq> []" by (simp add: lit_def)
  have cut_long: "(if 8000 < length ?long then take 8000 ?long @ lit ''...'' else ?long) =
      replicate 8000 (of_char CHR ''a'') @ lit ''...''"
    by simp
  have cut_short: "(if 8000 < length (lit ''hello world'')
        then take 8000 (lit ''hello world'') @ lit ''...'' else lit ''hello world'') =
      lit ''hello world''"
    by (simp add: lit_def)
  from simple_prompt_matches_default_outline
         [OF long, of ?w "GenerativeModel (lit ''key1'')" initial_state]
       simple_prompt_matches_default_outline
         [OF short, of ?w "GenerativeModel (lit ''key1'')" initial_state]
  show ?thesis unfolding cut_long cut_short using long short by blast
qed

lemma get_youtube_transcript_failure:
  assumes "\<And>video_id languages. \<exists>e. get_transcript api video_id languages = Inl e"
  shows "get_youtube_transcript api video_url language_code = None"
proof -
  have "(case get_transcript api video_id languages of Inl e \<Rightarrow> None
         | Inr transcript_data \<Rightarrow> Some (f transcript_data)) = None" for video_id languages
      and f :: "str list \<Rightarrow> str"
    using assms [of video_id languages] by auto
  then show ?thesis
    by (simp add: get_youtube_transcript_def split: sum.split)
qed

text \<open>
  Claim C10. The test \<^verbatim>\<open>if not transcript\<close> is false for \<^verbatim>\<open>None\<close> as it is for the empty
  string, so for a missing transcript both entry points return exactly
  \<^verbatim>\<open>Error: Transcript is empty.\<close> and leave the state, with its log of calls, as it was, just
  as they do for the empty string. \<^verbatim>\<open>None\<close> is what \<^verbatim>\<open>get_youtube_transcript\<close> returns when
  the transcript source fails.
\<close>

theorem missing_transcript_error:
  "summarize_transcript w None model s = (lit ''Error: Transcript is empty.'', s) \<and>
   summarize_transcript_advanced w None model summary_style detail_level translate_to s =
     (lit ''Error: Transcript is empty.'', s) \<and>
   summarize_transcript w None model s = summarize_transcript w (Some []) model s \<and>
   summarize_transcript_advanced w None model summary_style detail_level translate_to s =
     summarize_transcript_advanced w (Some []) model summary_style detail_level translate_to s \<and>
   ((\<forall>video_id languages. \<exists>e. get_transcript api video_id languages = Inl e) \<longrightarrow>
      get_youtube_transcript api video_url language_code = None \<and>
      summarize_transcript w (get_youtube_transcript api video_url language_code) model s =
        (lit ''Error: Transcript is empty.'', s) \<and>
      summarize_transcript_advanced w (get_youtube_transcript api video_url language_code) model
          summary_style detail_level translate_to s =
        (lit ''Error: Transcript is empty.'', s))"
proof -
  have "get_youtube_transcript api video_url language_code = None"
    if "\<forall>video_id languages. \<exists>e. get_transcript api video_id languages = Inl e"
    using that by (intro get_youtube_transcript_failure) blast
  then show ?thesis
    by (auto simp: summarize_transcript_advanced_def summarize_transcript_def truthy_def)
qed

text \<open>
  The theorem of claim C10 at a transcript source whose every request raises.
\<close>

theorem missing_transcript_error_witness:
  "(\<forall>video_id languages. \<exists>e. get_transcript failing_api video_id languages = Inl e) \<and>
   get_youtube_transcript failing_api (lit ''https://youtu.be/dQw4w9WgXcQ'') None = None \<and>
   summarize_transcript (answering_world [lit ''key1''] (Response (Some (lit ''summary'')) []))
       (get_youtube_transcript failing_api (lit ''https://youtu.be/dQw4w9WgXcQ'') None)
       (GenerativeModel (lit ''key1'')) initial_state =
     (lit ''Error: Transcript is empty.'', initial_state)"
proof -
  have h: "\<forall>video_id languages. \<exists>e. get_transcript failing_api video_id languages = Inl e"
    by (simp add: failing_api_def)
  show ?thesis
    using h missing_transcript_error
      [of "answering_world [lit ''key1''] (Response (Some (lit ''summary'')) [])"
          "GenerativeModel (lit ''key1'')" initial_state _ _ _ failing_api
          "lit ''https://youtu.be/dQw4w9WgXcQ''" None]
    by blast
qed

end
